theory Spec2Isabelle
  imports Main
begin

section \<open>Item storage\<close>

text \<open>
  The resolvers of \<^verbatim>\<open>getPasswordResetSchema.ts\<close> work on list items through the
  item API (\<^verbatim>\<open>context.sudo().lists[listKey]\<close>). An item is an object with an
  \<^verbatim>\<open>id\<close> and named fields; the resolvers address the fields by computed keys
  (\<^verbatim>\<open>`${tokenType}Token`\<close>, \<^verbatim>\<open>[secretField]\<close>), so the fields are a map from
  field names to values. An absent key is JavaScript's \<^verbatim>\<open>undefined\<close>, \<open>VNull\<close> is
  \<^verbatim>\<open>null\<close>. Time is the clock's count of milliseconds.
\<close>

datatype val = VNull | VStr string | VTime int

type_synonym data = "(string \<times> val) list"

record item =
  itemId :: nat
  fieldVals :: "string \<Rightarrow> val option"

text \<open>
  What a call can throw: the unexpected failures. \<open>ItemNotFound\<close> and
  \<open>UpdateRejected\<close> come from \<^verbatim>\<open>updateOne\<close> (no item with that id; the list's own
  pipeline refuses the data, as when password validation fails), \<open>SendTokenFailed\<close>
  from the configured \<^verbatim>\<open>sendToken\<close> callback, \<open>HelperFailed\<close> from an imported
  helper whose awaited call is rejected (its lookup of the identity fails).
\<close>

datatype exn = ItemNotFound | UpdateRejected | SendTokenFailed | HelperFailed

text \<open>
  The state the resolvers act on: the stored items, the \<^verbatim>\<open>updateOne\<close> calls made
  so far (in order, whether or not they went through) and the tokens handed to
  \<^verbatim>\<open>sendToken\<close>.
\<close>

record state =
  items :: "item list"
  calls :: "(nat \<times> data) list"
  sent :: "(nat \<times> string \<times> string) list"

text \<open>
  The collaborators whose behaviour the resolvers do not decide: whether the list
  accepts an update of an item, and whether the delivery callback goes through.
\<close>

record world =
  accepts :: "item \<Rightarrow> data \<Rightarrow> bool"
  delivers :: "nat \<Rightarrow> string \<Rightarrow> string \<Rightarrow> bool"

text \<open>An object literal with a repeated key keeps the last value.\<close>

definition assign :: "(string \<Rightarrow> val option) \<Rightarrow> data \<Rightarrow> (string \<Rightarrow> val option)" where
  "assign f d = f ++ map_of (rev d)"

definition withId :: "nat \<Rightarrow> item list \<Rightarrow> item list" where
  "withId i its = filter (\<lambda>it. itemId it = i) its"

text \<open>
  \<^verbatim>\<open>itemAPI.updateOne({ id, data, query: false })\<close>: the call is recorded; it throws
  when no item has the id or the list refuses the data, and then stores nothing;
  otherwise the data is written over the item's fields.
\<close>

definition updateOne :: "world \<Rightarrow> nat \<Rightarrow> data \<Rightarrow> state \<Rightarrow> (exn + unit) \<times> state" where
  "updateOne w i d st =
     (let st1 = st\<lparr>calls := calls st @ [(i, d)]\<rparr> in
      if withId i (items st) = [] then (Inl ItemNotFound, st1)
      else if \<not> list_all (\<lambda>it. accepts w it d) (withId i (items st)) then (Inl UpdateRejected, st1)
      else (Inr (),
            st1\<lparr>items := map (\<lambda>it. if itemId it = i then it\<lparr>fieldVals := assign (fieldVals it) d\<rparr> else it)
                              (items st)\<rparr>))"

text \<open>\<^verbatim>\<open>passwordResetLink.sendToken({ itemId, identity, token, context })\<close>.\<close>

definition sendToken :: "world \<Rightarrow> nat \<Rightarrow> string \<Rightarrow> string \<Rightarrow> state \<Rightarrow> (exn + unit) \<times> state" where
  "sendToken w i identity token st =
     (if delivers w i identity token
      then (Inr (), st\<lparr>sent := sent st @ [(i, identity, token)]\<rparr>)
      else (Inl SendTokenFailed, st))"

section \<open>Password reset: types and imported helpers\<close>

text \<open>
  The error codes of the GraphQL enums \<^verbatim>\<open>PasswordResetRequestErrorCode\<close> and
  \<^verbatim>\<open>PasswordResetRedemptionErrorCode\<close> (the first two are shared).
\<close>

datatype code =
    FAILURE
  | IDENTITY_NOT_FOUND
  | MULTIPLE_IDENTITY_MATCHES
  | TOKEN_NOT_SET
  | TOKEN_MISMATCH
  | TOKEN_EXPIRED
  | TOKEN_REDEEMED

text \<open>
  The result of \<^verbatim>\<open>createAuthToken\<close>:
  \<^verbatim>\<open>{ success: false; code? } | { success: true; itemId; token }\<close>,
  and of \<^verbatim>\<open>validateAuthToken\<close>:
  \<^verbatim>\<open>{ success: false; code } | { success: true; item }\<close>.
\<close>

datatype createResult = CreateFailure "code option" | CreateSuccess nat string

datatype validateResult = ValidateFailure code | ValidateSuccess item

text \<open>
  The three functions the schema imports from \<^verbatim>\<open>../lib\<close>. They are arguments of
  the resolvers here, so that what is proved of a resolver alone holds for any
  implementation of them. Both token helpers only read the items; the token that
  \<^verbatim>\<open>createAuthToken\<close> generates is its last argument, and the clock that
  \<^verbatim>\<open>validateAuthToken\<close> reads is its last argument. The resolvers await both:
  a helper returns its result (\<open>Inr\<close>) or its promise is rejected (\<open>Inl\<close>).
\<close>

record helpers =
  createAuthToken ::
    "string \<Rightarrow> bool \<Rightarrow> string \<Rightarrow> item list \<Rightarrow> string \<Rightarrow> exn + createResult"
  validateAuthToken ::
    "string \<Rightarrow> string \<Rightarrow> string \<Rightarrow> bool \<Rightarrow> int \<Rightarrow> string \<Rightarrow> item list \<Rightarrow> int
       \<Rightarrow> exn + validateResult"
  getAuthTokenErrorMessage :: "string \<Rightarrow> string \<Rightarrow> string \<Rightarrow> code \<Rightarrow> string"

text \<open>The arguments of \<^verbatim>\<open>getPasswordResetSchema\<close> that the resolvers use.\<close>

record config =
  identityField :: string
  secretField :: string
  protectIdentities :: bool
  tokensValidForMins :: int
  itemSingular :: string
  itemPlural :: string

type_synonym result = "(code \<times> string) option"

definition tokenType :: string where
  "tokenType = ''passwordReset''"

definition errorResult :: "helpers \<Rightarrow> config \<Rightarrow> code \<Rightarrow> result" where
  "errorResult h cfg c =
     Some (c, getAuthTokenErrorMessage h (identityField cfg) (itemSingular cfg) (itemPlural cfg) c)"

section \<open>The resolvers\<close>

text \<open>
  \<^verbatim>\<open>Mutation[gqlNames.sendItemPasswordResetLink]\<close>. \<open>Inr None\<close> is the returned
  \<^verbatim>\<open>null\<close>, \<open>Inr (Some (code, message))\<close> the returned object, \<open>Inl e\<close> a
  thrown exception. The clock readings of one call are one instant, \<open>now\<close>.
\<close>

definition sendItemPasswordResetLink ::
  "helpers \<Rightarrow> config \<Rightarrow> world \<Rightarrow> string \<Rightarrow> string \<Rightarrow> int \<Rightarrow> state \<Rightarrow> (exn + result) \<times> state"
where
  "sendItemPasswordResetLink h cfg w identity entropy now st =
     (case createAuthToken h (identityField cfg) (protectIdentities cfg) identity (items st) entropy of
        Inl e \<Rightarrow> (Inl e, st)
      | Inr (CreateFailure (Some c)) \<Rightarrow> (Inr (errorResult h cfg c), st)
      | Inr (CreateFailure None) \<Rightarrow> (Inr None, st)
      | Inr (CreateSuccess i token) \<Rightarrow>
          (case updateOne w i
                  [(tokenType @ ''Token'', VStr token),
                   (tokenType @ ''IssuedAt'', VTime now),
                   (tokenType @ ''RedeemedAt'', VNull)] st of
             (Inl e, st1) \<Rightarrow> (Inl e, st1)
           | (Inr _, st1) \<Rightarrow>
               (case sendToken w i identity token st1 of
                  (Inl e, st2) \<Rightarrow> (Inl e, st2)
                | (Inr _, st2) \<Rightarrow> (Inr None, st2))))"

text \<open>\<^verbatim>\<open>Mutation[gqlNames.redeemItemPasswordResetToken]\<close>.\<close>

definition redeemItemPasswordResetToken ::
  "helpers \<Rightarrow> config \<Rightarrow> world \<Rightarrow> string \<Rightarrow> string \<Rightarrow> string \<Rightarrow> int \<Rightarrow> state \<Rightarrow> (exn + result) \<times> state"
where
  "redeemItemPasswordResetToken h cfg w identity token secret now st =
     (case validateAuthToken h tokenType (identityField cfg) identity (protectIdentities cfg)
             (tokensValidForMins cfg) token (items st) now of
        Inl e \<Rightarrow> (Inl e, st)
      | Inr (ValidateFailure c) \<Rightarrow> (Inr (errorResult h cfg c), st)
      | Inr (ValidateSuccess it) \<Rightarrow>
          (case updateOne w (itemId it) [(tokenType @ ''RedeemedAt'', VTime now)] st of
             (Inl e, st1) \<Rightarrow> (Inl e, st1)
           | (Inr _, st1) \<Rightarrow>
               (case updateOne w (itemId it) [(secretField cfg, VStr secret)] st1 of
                  (Inl e, st2) \<Rightarrow> (Inl e, st2)
                | (Inr _, st2) \<Rightarrow> (Inr None, st2))))"

text \<open>\<^verbatim>\<open>Query[gqlNames.validateItemPasswordResetToken]\<close>.\<close>

definition validateItemPasswordResetToken ::
  "helpers \<Rightarrow> config \<Rightarrow> world \<Rightarrow> string \<Rightarrow> string \<Rightarrow> int \<Rightarrow> state \<Rightarrow> (exn + result) \<times> state"
where
  "validateItemPasswordResetToken h cfg w identity token now st =
     (case validateAuthToken h tokenType (identityField cfg) identity (protectIdentities cfg)
             (tokensValidForMins cfg) token (items st) now of
        Inl e \<Rightarrow> (Inl e, st)
      | Inr (ValidateFailure c) \<Rightarrow> (Inr (errorResult h cfg c), st)
      | Inr (ValidateSuccess it) \<Rightarrow> (Inr None, st))"

section \<open>The token helpers, from the specification\<close>

text \<open>The items whose identity field holds the given identity value.\<close>

definition matching :: "string \<Rightarrow> string \<Rightarrow> item list \<Rightarrow> item list" where
  "matching idf identity its = filter (\<lambda>it. fieldVals it idf = Some (VStr identity)) its"

text \<open>
  Modelled from the spec: \<^verbatim>\<open>createAuthToken\<close> of \<^verbatim>\<open>../lib/createAuthToken\<close>
  is not among the sources. The specification's \<open>issue\<close>: the identity record is
  looked up by the identity field; a token is generated only if exactly one record
  is found; with identity protection the failure carries no code, without it the
  codes tell "not found" from "multiple matches".
\<close>

definition createAuthToken_spec ::
  "string \<Rightarrow> bool \<Rightarrow> string \<Rightarrow> item list \<Rightarrow> string \<Rightarrow> createResult"
where
  "createAuthToken_spec idf protect identity its entropy =
     (case matching idf identity its of
        [] \<Rightarrow> CreateFailure (if protect then None else Some IDENTITY_NOT_FOUND)
      | [it] \<Rightarrow> CreateSuccess (itemId it) entropy
      | _ \<Rightarrow> CreateFailure (if protect then None else Some MULTIPLE_IDENTITY_MATCHES))"

text \<open>
  Modelled from the spec: the validity window that \<^verbatim>\<open>validateAuthToken\<close> derives
  from \<^verbatim>\<open>tokensValidForMins\<close>, in the clock's milliseconds.
\<close>

definition validityWindow :: "int \<Rightarrow> int" where
  "validityWindow mins = mins * 60000"

text \<open>A field is non-null when it is present and not \<^verbatim>\<open>null\<close>.\<close>

definition nonNull :: "val option \<Rightarrow> bool" where
  "nonNull v = (case v of None \<Rightarrow> False | Some VNull \<Rightarrow> False | Some _ \<Rightarrow> True)"

text \<open>
  Modelled from the spec: \<^verbatim>\<open>validateAuthToken\<close> of \<^verbatim>\<open>../lib/validateAuthToken\<close>
  is not among the sources. The specification's \<open>validate\<close>, its checks in the
  order the specification lists them: the identity (with protection both identity
  failures are \<open>FAILURE\<close>); \<open>TOKEN_NOT_SET\<close> if no token was ever issued (no stored
  token or no issue time); \<open>TOKEN_REDEEMED\<close> if \<open>RedeemedAt\<close> is non-null;
  \<open>TOKEN_EXPIRED\<close> if \<open>now - IssuedAt \<ge> validityWindow\<close>; \<open>TOKEN_MISMATCH\<close> if the
  presented token is not the stored one; otherwise success with the matched item.
\<close>

definition validateAuthToken_spec ::
  "string \<Rightarrow> string \<Rightarrow> string \<Rightarrow> bool \<Rightarrow> int \<Rightarrow> string \<Rightarrow> item list \<Rightarrow> int \<Rightarrow> validateResult"
where
  "validateAuthToken_spec tt idf identity protect mins token its now =
     (case matching idf identity its of
        [] \<Rightarrow> ValidateFailure (if protect then FAILURE else IDENTITY_NOT_FOUND)
      | [it] \<Rightarrow>
          (case (fieldVals it (tt @ ''Token''), fieldVals it (tt @ ''IssuedAt'')) of
             (Some (VStr stored), Some (VTime issued)) \<Rightarrow>
               if nonNull (fieldVals it (tt @ ''RedeemedAt'')) then ValidateFailure TOKEN_REDEEMED
               else if now - issued \<ge> validityWindow mins then ValidateFailure TOKEN_EXPIRED
               else if token \<noteq> stored then ValidateFailure TOKEN_MISMATCH
               else ValidateSuccess it
           | _ \<Rightarrow> ValidateFailure TOKEN_NOT_SET)
      | _ \<Rightarrow> ValidateFailure (if protect then FAILURE else MULTIPLE_IDENTITY_MATCHES))"

text \<open>
  Modelled from the spec: \<^verbatim>\<open>getAuthTokenErrorMessage\<close> of \<^verbatim>\<open>../lib/getErrorMessage\<close>
  is not among the sources. Each code has a fixed message that may name the list;
  the three texts the resolver's comments quote are kept, the others only name
  their code.
\<close>

definition getAuthTokenErrorMessage_spec :: "string \<Rightarrow> string \<Rightarrow> string \<Rightarrow> code \<Rightarrow> string" where
  "getAuthTokenErrorMessage_spec idf singular plural c =
     (case c of
        FAILURE \<Rightarrow> ''Auth token redemption failed.''
      | IDENTITY_NOT_FOUND \<Rightarrow> ''No '' @ singular @ '' has this '' @ idf @ ''.''
      | MULTIPLE_IDENTITY_MATCHES \<Rightarrow> ''Several '' @ plural @ '' have this '' @ idf @ ''.''
      | TOKEN_NOT_SET \<Rightarrow> ''The '' @ singular @ '' has no auth token set.''
      | TOKEN_MISMATCH \<Rightarrow> ''The auth token provided is incorrect.''
      | TOKEN_EXPIRED \<Rightarrow> ''The auth token provided has expired.''
      | TOKEN_REDEEMED \<Rightarrow>
          ''Auth tokens are single use and the auth token provided has already been redeemed.'')"

text \<open>
  The helpers as the specification describes them. Their lookup reads the items
  it is given and always answers, so these helpers return and are never rejected.
\<close>

definition specHelpers :: helpers where
  "specHelpers =
     \<lparr>createAuthToken =
        (\<lambda>idf protect identity its entropy. Inr (createAuthToken_spec idf protect identity its entropy)),
      validateAuthToken =
        (\<lambda>tt idf identity protect mins token its now.
           Inr (validateAuthToken_spec tt idf identity protect mins token its now)),
      getAuthTokenErrorMessage = getAuthTokenErrorMessage_spec\<rparr>"

text \<open>Helpers whose lookup fails: every awaited call is rejected.\<close>

definition failingHelpers :: helpers where
  "failingHelpers =
     \<lparr>createAuthToken = (\<lambda>idf protect identity its entropy. Inl HelperFailed),
      validateAuthToken = (\<lambda>tt idf identity protect mins token its now. Inl HelperFailed),
      getAuthTokenErrorMessage = getAuthTokenErrorMessage_spec\<rparr>"

text \<open>The \<^verbatim>\<open>success\<close> flag of an awaited \<^verbatim>\<open>createAuthToken\<close> result.\<close>

definition createSucceeded :: "exn + createResult \<Rightarrow> bool" where
  "createSucceeded r = (case r of Inr (CreateSuccess i token) \<Rightarrow> True | _ \<Rightarrow> False)"

text \<open>The data of the three writes the resolvers make.\<close>

definition issueData :: "string \<Rightarrow> int \<Rightarrow> data" where
  "issueData token now =
     [(tokenType @ ''Token'', VStr token),
      (tokenType @ ''IssuedAt'', VTime now),
      (tokenType @ ''RedeemedAt'', VNull)]"

definition redeemData :: "int \<Rightarrow> data" where
  "redeemData now = [(tokenType @ ''RedeemedAt'', VTime now)]"

definition secretData :: "config \<Rightarrow> string \<Rightarrow> data" where
  "secretData cfg secret = [(secretField cfg, VStr secret)]"

text \<open>What \<^verbatim>\<open>updateOne\<close> makes of an item list when it goes through.\<close>

definition itemsAfter :: "nat \<Rightarrow> data \<Rightarrow> item list \<Rightarrow> item list" where
  "itemsAfter i d its =
     map (\<lambda>it. if itemId it = i then it\<lparr>fieldVals := assign (fieldVals it) d\<rparr> else it) its"


section \<open>Sequences of validate and redeem calls\<close>




section \<open>Example data\<close>

definition userConfig :: config where
  "userConfig =
     \<lparr>identityField = ''email'', secretField = ''password'', protectIdentities = False,
      tokensValidForMins = 10, itemSingular = ''User'', itemPlural = ''Users''\<rparr>"

definition protectedConfig :: config where
  "protectedConfig = userConfig\<lparr>protectIdentities := True\<rparr>"

definition alice :: item where
  "alice = \<lparr>itemId = 1, fieldVals = [''email'' \<mapsto> VStr ''a@x.com'', ''password'' \<mapsto> VStr ''old'']\<rparr>"

definition aliceIssued :: item where
  "aliceIssued =
     alice\<lparr>fieldVals := assign (fieldVals alice)
       [(''passwordResetToken'', VStr ''t0k3n''),
        (''passwordResetIssuedAt'', VTime 1000),
        (''passwordResetRedeemedAt'', VNull)]\<rparr>"

definition store :: "item list \<Rightarrow> state" where
  "store its = \<lparr>items = its, calls = [], sent = []\<rparr>"

text \<open>A world in which every update and every delivery goes through.\<close>

definition calmWorld :: world where
  "calmWorld = \<lparr>accepts = (\<lambda>it d. True), delivers = (\<lambda>i identity token. True)\<rparr>"

text \<open>A world whose delivery callback throws, as when the mail server cannot be reached.\<close>

definition offlineWorld :: world where
  "offlineWorld = \<lparr>accepts = (\<lambda>it d. True), delivers = (\<lambda>i identity token. False)\<rparr>"

text \<open>A world whose list refuses the secret \<open>''123''\<close>, as a password rule would.\<close>

definition strictWorld :: world where
  "strictWorld =
     \<lparr>accepts = (\<lambda>it d. (''password'', VStr ''123'') \<notin> set d), delivers = (\<lambda>i identity token. True)\<rparr>"

section \<open>Paths\<close>

text \<open>
  The functions of Node's \<^verbatim>\<open>path\<close> module (POSIX) that \<^verbatim>\<open>generateAdminUI.ts\<close>
  calls. A path is cut at every \<^verbatim>\<open>/\<close>; normalising drops empty and \<^verbatim>\<open>.\<close> segments
  and lets \<^verbatim>\<open>..\<close> take back the segment before it (above the start of a relative
  path a \<^verbatim>\<open>..\<close> is kept, at the root it is dropped).
\<close>

fun segments :: "string \<Rightarrow> string list" where
  "segments [] = [[]]"
| "segments (c # cs) =
     (if c = CHR ''/'' then [] # segments cs
      else (case segments cs of [] \<Rightarrow> [[c]] | s # ss \<Rightarrow> (c # s) # ss))"

text \<open>The kept segments are accumulated last segment first.\<close>

fun normalizeString :: "bool \<Rightarrow> string list \<Rightarrow> string list \<Rightarrow> string list" where
  "normalizeString allowAboveRoot res [] = rev res"
| "normalizeString allowAboveRoot res (s # ss) =
     (if s = [] \<or> s = ''.'' then normalizeString allowAboveRoot res ss
      else if s = ''..'' then
        (case res of
           [] \<Rightarrow> normalizeString allowAboveRoot (if allowAboveRoot then [''..''] else []) ss
         | t # ts \<Rightarrow>
             if t = ''..''
             then normalizeString allowAboveRoot (if allowAboveRoot then ''..'' # res else res) ss
             else normalizeString allowAboveRoot ts ss)
      else normalizeString allowAboveRoot (s # res) ss)"

fun joinSegments :: "string list \<Rightarrow> string" where
  "joinSegments [] = []"
| "joinSegments [s] = s"
| "joinSegments (s # t # ss) = s @ ''/'' @ joinSegments (t # ss)"

definition Path_isAbsolute :: "string \<Rightarrow> bool" where
  "Path_isAbsolute p = (case p of [] \<Rightarrow> False | c # cs \<Rightarrow> c = CHR ''/'')"

definition Path_normalize :: "string \<Rightarrow> string" where
  "Path_normalize p =
     (if p = [] then ''.''
      else
        let isAbsolute = Path_isAbsolute p;
            trailingSeparator = (last p = CHR ''/'');
            q = joinSegments (normalizeString (\<not> isAbsolute) [] (segments p))
        in if q = [] then (if isAbsolute then ''/'' else if trailingSeparator then ''./'' else ''.'')
           else (if isAbsolute then ''/'' else []) @ q @ (if trailingSeparator then ''/'' else []))"

definition Path_join :: "string list \<Rightarrow> string" where
  "Path_join args =
     (let joined = filter (\<lambda>arg. arg \<noteq> []) args
      in if joined = [] then ''.'' else Path_normalize (joinSegments joined))"

section \<open>The file system\<close>

text \<open>
  The files \<^verbatim>\<open>fs-extra\<close> works on: a file is named by the segments of its resolved
  path (relative paths start at the working directory) and holds a text;
  directories are the prefixes of file names. The log keeps every operation in
  the order it was made.
\<close>

type_synonym fileKey = "string list"

datatype fsOp = Remove fileKey | OutputFile fileKey string | CopyFile fileKey fileKey string

record fsState =
  files :: "fileKey \<Rightarrow> string option"
  fsLog :: "fsOp list"

definition resolvePath :: "string \<Rightarrow> string \<Rightarrow> fileKey" where
  "resolvePath wd p =
     normalizeString False [] (segments (if Path_isAbsolute p then p else wd @ ''/'' @ p))"

definition within :: "fileKey \<Rightarrow> fileKey \<Rightarrow> bool" where
  "within dir k = (take (length dir) k = dir)"

text \<open>\<^verbatim>\<open>fs.remove(path)\<close>: the file or directory and all below it.\<close>

definition fs_remove :: "string \<Rightarrow> string \<Rightarrow> fsState \<Rightarrow> fsState" where
  "fs_remove wd p st =
     st\<lparr>files := (\<lambda>k. if within (resolvePath wd p) k then None else files st k),
        fsLog := fsLog st @ [Remove (resolvePath wd p)]\<rparr>"

text \<open>\<^verbatim>\<open>fs.outputFile(path, text)\<close>: writes the file, making its directories.\<close>

definition fs_outputFile :: "string \<Rightarrow> string \<Rightarrow> string \<Rightarrow> fsState \<Rightarrow> fsState" where
  "fs_outputFile wd p text st =
     st\<lparr>files := (files st)(resolvePath wd p \<mapsto> text),
        fsLog := fsLog st @ [OutputFile (resolvePath wd p) text]\<rparr>"

datatype adminExn = InputPathNotAbsolute string | CopySourceMissing | FormatFailed | ResolveFailed

text \<open>
  \<^verbatim>\<open>fs.ensureDir(dirname)\<close> followed by \<^verbatim>\<open>fs.copyFile(src, dest)\<close>: throws when the source
  does not exist.
\<close>

definition fs_copyFile :: "string \<Rightarrow> string \<Rightarrow> string \<Rightarrow> fsState \<Rightarrow> (adminExn + unit) \<times> fsState" where
  "fs_copyFile wd src dest st =
     (case files st (resolvePath wd src) of
        None \<Rightarrow> (Inl CopySourceMissing, st)
      | Some text \<Rightarrow>
          (Inr (),
           st\<lparr>files := (files st)(resolvePath wd dest \<mapsto> text),
              fsLog := fsLog st @ [CopyFile (resolvePath wd src) (resolvePath wd dest) text]\<rparr>))"

section \<open>The admin UI generator\<close>

text \<open>
  \<^verbatim>\<open>AdminFileToWrite\<close> of \<^verbatim>\<open>@keystone-next/types\<close>, as \<^verbatim>\<open>writeAdminFile\<close> reads it:
  a file of mode \<^verbatim>\<open>'write'\<close> has \<^verbatim>\<open>src\<close> and \<^verbatim>\<open>outputPath\<close>, a file of mode
  \<^verbatim>\<open>'copy'\<close> has \<^verbatim>\<open>inputPath\<close> and \<^verbatim>\<open>outputPath\<close>.
\<close>

datatype AdminFileToWrite = WriteMode string string | CopyMode string string

fun outputPath :: "AdminFileToWrite \<Rightarrow> string" where
  "outputPath (WriteMode src out) = out"
| "outputPath (CopyMode inputPath out) = out"

datatype resolveOutcome = Resolved | ModuleNotFound | OtherResolveError

text \<open>
  What the generator takes from outside this file: the working directory, what
  \<^verbatim>\<open>prettier.format\<close> makes of a source (nothing when it throws), what
  \<^verbatim>\<open>resolve.sync\<close> finds for \<^verbatim>\<open>admin/config\<close>, the framework's files
  (\<^verbatim>\<open>writeAdminFiles\<close> of \<^verbatim>\<open>../templates\<close>, given \<^verbatim>\<open>configFileExists\<close> and the
  target directory), the files \<^verbatim>\<open>fastGlob\<close> finds under \<^verbatim>\<open>admin/pages\<close>, and the
  import path that \<^verbatim>\<open>serializePathForImport(Path.relative(Path.dirname(outputFilename), target))\<close>
  gives for an output file and its target.
\<close>

record adminEnv =
  cwd :: string
  prettierFormat :: "string \<Rightarrow> string option"
  adminConfigResolve :: resolveOutcome
  writeAdminFiles :: "bool \<Rightarrow> string \<Rightarrow> AdminFileToWrite list"
  userPagesGlob :: "string list"
  importPathFor :: "string \<Rightarrow> string \<Rightarrow> string"

definition formatSource :: "adminEnv \<Rightarrow> string \<Rightarrow> string option" where
  "formatSource env src = prettierFormat env src"

definition getDoesAdminConfigExist :: "adminEnv \<Rightarrow> adminExn + bool" where
  "getDoesAdminConfigExist env =
     (case adminConfigResolve env of
        Resolved \<Rightarrow> Inr True
      | ModuleNotFound \<Rightarrow> Inr False
      | OtherResolveError \<Rightarrow> Inl ResolveFailed)"

definition writeAdminFile ::
  "adminEnv \<Rightarrow> AdminFileToWrite \<Rightarrow> string \<Rightarrow> fsState \<Rightarrow> (adminExn + string) \<times> fsState"
where
  "writeAdminFile env file projectAdminPath st =
     (let outputFilename = Path_join [projectAdminPath, outputPath file] in
      case file of
        CopyMode inputPath out \<Rightarrow>
          if \<not> Path_isAbsolute inputPath then (Inl (InputPathNotAbsolute inputPath), st)
          else (case fs_copyFile (cwd env) inputPath outputFilename st of
                  (Inl e, st1) \<Rightarrow> (Inl e, st1)
                | (Inr u, st1) \<Rightarrow> (Inr (Path_normalize outputFilename), st1))
      | WriteMode src out \<Rightarrow>
          (case formatSource env src of
             None \<Rightarrow> (Inl FormatFailed, st)
           | Some text \<Rightarrow>
               (Inr (Path_normalize outputFilename), fs_outputFile (cwd env) outputFilename text st)))"

text \<open>
  \<^verbatim>\<open>Promise.all(files.map(file => writeAdminFile(file, projectAdminPath)))\<close>: every
  file is started, so a file that throws does not stop the others; the writes are
  taken in the order of the list. The promise is rejected with the first error.
\<close>

fun writeAll ::
  "adminEnv \<Rightarrow> AdminFileToWrite list \<Rightarrow> string \<Rightarrow> fsState \<Rightarrow> (adminExn + string) list \<times> fsState"
where
  "writeAll env [] projectAdminPath st = ([], st)"
| "writeAll env (file # rest) projectAdminPath st =
     (case writeAdminFile env file projectAdminPath st of
        (r, st1) \<Rightarrow>
          (case writeAll env rest projectAdminPath st1 of (rs, st2) \<Rightarrow> (r # rs, st2)))"

fun firstError :: "('e + 'a) list \<Rightarrow> 'e option" where
  "firstError [] = None"
| "firstError (Inl e # rs) = Some e"
| "firstError (Inr x # rs) = firstError rs"

fun fulfilled :: "('e + 'a) list \<Rightarrow> 'a list" where
  "fulfilled [] = []"
| "fulfilled (Inl e # rs) = fulfilled rs"
| "fulfilled (Inr x # rs) = x # fulfilled rs"

text \<open>The re-export files for the user's own pages under \<^verbatim>\<open>admin/pages\<close>.\<close>

definition writeUserPage :: "adminEnv \<Rightarrow> string \<Rightarrow> string \<Rightarrow> fsState \<Rightarrow> fsState" where
  "writeUserPage env projectAdminPath filename st =
     (let userPagesDir = Path_join [cwd env, ''admin'', ''pages''];
          outputFilename = Path_join [projectAdminPath, ''pages'', filename];
          importPath = importPathFor env outputFilename (Path_join [userPagesDir, filename])
      in fs_outputFile (cwd env) outputFilename (''export { default } from '' @ importPath) st)"

text \<open>
  \<^verbatim>\<open>generateAdminUI(config, graphQLSchema, keystone, projectAdminPath)\<close>. The second
  argument here is what the functions of \<^verbatim>\<open>config.ui.getAdditionalFiles\<close> return
  (the empty list when there are none).
\<close>

definition generateAdminUI ::
  "adminEnv \<Rightarrow> AdminFileToWrite list list \<Rightarrow> string \<Rightarrow> fsState \<Rightarrow> (adminExn + unit) \<times> fsState"
where
  "generateAdminUI env userPages projectAdminPath st =
     (let st0 = fs_remove (cwd env) projectAdminPath st;
          userFilesToWrite = concat userPages
      in case writeAll env userFilesToWrite projectAdminPath st0 of
        (savedFiles, st1) \<Rightarrow>
          (case firstError savedFiles of
             Some e \<Rightarrow> (Inl e, st1)
           | None \<Rightarrow>
               (let uniqueFiles = set (fulfilled savedFiles) in
                case getDoesAdminConfigExist env of
                  Inl e \<Rightarrow> (Inl e, st1)
                | Inr configFileExists \<Rightarrow>
                    (let adminFiles = writeAdminFiles env configFileExists projectAdminPath
                     in case writeAll env
                               (filter (\<lambda>x. Path_normalize (outputPath x) \<notin> uniqueFiles) adminFiles)
                               projectAdminPath st1 of
                       (written, st2) \<Rightarrow>
                         (case firstError written of
                            Some e \<Rightarrow> (Inl e, st2)
                          | None \<Rightarrow>
                              (Inr (), fold (writeUserPage env projectAdminPath)
                                         (userPagesGlob env) st2))))))"

section \<open>Example project\<close>

text \<open>
  Three JavaScript modules, each in the form \<^verbatim>\<open>prettier\<close> prints it: one statement
  and a final newline.
\<close>

definition userHome :: string where
  "userHome = ''export default 1;'' @ [CHR 0x0A]"

definition builtinHome :: string where
  "builtinHome = ''export default 2;'' @ [CHR 0x0A]"

definition builtinApp :: string where
  "builtinApp = ''export default 3;'' @ [CHR 0x0A]"

text \<open>
  A project in \<^verbatim>\<open>/app\<close> with no \<^verbatim>\<open>admin/config\<close> and no pages of its own under
  \<^verbatim>\<open>admin/pages\<close>. Its \<^verbatim>\<open>prettier\<close> is given only the three modules above, which it
  returns as they are; it throws on any other text, as it does on a text that is
  not JavaScript.
\<close>

definition demoEnv :: adminEnv where
  "demoEnv =
     \<lparr>cwd = ''/app'',
      prettierFormat = (\<lambda>src. if src \<in> set [userHome, builtinHome, builtinApp] then Some src else None),
      adminConfigResolve = ModuleNotFound,
      writeAdminFiles = (\<lambda>configFileExists projectAdminPath.
         [WriteMode builtinHome ''pages/index.js'', WriteMode builtinApp ''pages/_app.js'']),
      userPagesGlob = [],
      importPathFor = (\<lambda>outputFilename target. target)\<rparr>"

text \<open>The same project with a framework that has the home page only.\<close>

definition homeOnlyEnv :: adminEnv where
  "homeOnlyEnv =
     demoEnv\<lparr>writeAdminFiles :=
       (\<lambda>configFileExists projectAdminPath. [WriteMode builtinHome ''pages/index.js''])\<rparr>"

definition emptyDisk :: fsState where
  "emptyDisk = \<lparr>files = (\<lambda>k. None), fsLog = []\<rparr>"

definition staleDisk :: fsState where
  "staleDisk =
     \<lparr>files = [[''app'', ''.keystone'', ''admin'', ''pages'', ''old.js''] \<mapsto> ''stale'',
               [''app'', ''keystone.ts''] \<mapsto> ''config''],
      fsLog = []\<rparr>"

text \<open>The operations that write a file, and the files a list of operations writes.\<close>

fun isWrite :: "fsOp \<Rightarrow> bool" where
  "isWrite (Remove k) = False"
| "isWrite (OutputFile k body) = True"
| "isWrite (CopyFile src k body) = True"

fun targets :: "fsOp list \<Rightarrow> fileKey list" where
  "targets [] = []"
| "targets (Remove k # ops) = targets ops"
| "targets (OutputFile k body # ops) = k # targets ops"
| "targets (CopyFile src k body # ops) = k # targets ops"

text \<open>
  The operations \<open>ops\<close> lead from one state of the file system to another: they are
  what the log gained, all of them write, and a file that none of them writes is
  as it was.
\<close>

abbreviation (input) writesBetween :: "fsState \<Rightarrow> fsState \<Rightarrow> fsOp list \<Rightarrow> bool" where
  "writesBetween st st' ops \<equiv>
     fsLog st' = fsLog st @ ops
     \<and> list_all isWrite ops
     \<and> (\<forall>k. k \<notin> set (targets ops) \<longrightarrow> files st' k = files st k)"

section \<open>The data resolution pipeline\<close>

text \<open>
  Modelled from the spec: the code that runs a create, update or delete through
  the hooks (the list implementation behind the GraphQL mutations) is not among
  the sources; \<^verbatim>\<open>docs-next/pages/apis/hooks.mdx\<close> documents the hooks and
  \<^verbatim>\<open>tests/api-tests/fields/required.test.ts\<close> exercises one failure. The
  definitions of this section follow section 4.1 of the specification.

  Resolved data is a map from field names to values. A hook receives the
  arguments the documentation lists; \<open>updatedItem\<close> is the persisted item that
  the after-hooks receive.
\<close>

datatype operation = Create | Update | Delete

type_synonym resolved = "string \<Rightarrow> val option"

record hookArgs =
  operation :: operation
  originalInput :: resolved
  existingItem :: "item option"
  resolvedData :: resolved
  updatedItem :: "item option"

text \<open>An error that a hook or a resolver stage throws.\<close>

datatype thrown = Thrown string

text \<open>
  The hooks of a field or of a list. Each is optional. \<open>resolveInput\<close> returns
  the new value (of the field, or the whole resolved data for a list) or throws;
  a validation hook throws or completes, having recorded the messages it passed
  to \<^verbatim>\<open>addFieldValidationError\<close> or \<^verbatim>\<open>addValidationError\<close>; the other hooks
  throw or complete.
\<close>

record 'r hooks =
  resolveInput :: "(hookArgs \<Rightarrow> thrown + 'r) option"
  validateInput :: "(hookArgs \<Rightarrow> thrown + string list) option"
  beforeChange :: "(hookArgs \<Rightarrow> thrown + unit) option"
  afterChange :: "(hookArgs \<Rightarrow> thrown + unit) option"
  validateDelete :: "(hookArgs \<Rightarrow> thrown + string list) option"
  beforeDelete :: "(hookArgs \<Rightarrow> thrown + unit) option"
  afterDelete :: "(hookArgs \<Rightarrow> thrown + unit) option"

text \<open>
  A field: its name, its default (a function of the original input; a static
  default is a constant function), how its relationship input is resolved, how
  its type coerces a value for storage, and its hooks.
\<close>

record fieldConfig =
  fieldPath :: string
  defaultValue :: "(resolved \<Rightarrow> val) option"
  resolveRelationship :: "hookArgs \<Rightarrow> thrown + val option"
  coerceValue :: "hookArgs \<Rightarrow> thrown + val option"
  fieldHooks :: "val option hooks"

record listConfig =
  listFields :: "fieldConfig list"
  listHooks :: "resolved hooks"
  deleteAccess :: "item \<Rightarrow> bool"

text \<open>What can be observed of a run: the hooks invoked and the writes to storage.\<close>

datatype hookName =
  ResolveInput | ValidateInput | BeforeChange | AfterChange | ValidateDelete | BeforeDelete | AfterDelete

datatype event =
    Invoked hookName "string option"
  | Persisted operation nat

record listState =
  rows :: "item list"
  nextId :: nat
  events :: "event list"

datatype failure = ValidationFailureError "string list" | HookFailure thrown | AccessDenied | NoSuchItem

text \<open>The arguments of a hook before the item is persisted.\<close>

definition argsOf :: "operation \<Rightarrow> resolved \<Rightarrow> item option \<Rightarrow> resolved \<Rightarrow> hookArgs" where
  "argsOf op input existing rd =
     \<lparr>operation = op, originalInput = input, existingItem = existing, resolvedData = rd,
      updatedItem = None\<rparr>"

text \<open>
  Modelled from the spec: stage 1 of the pipeline (its code is not among the
  sources). On create, a field left undefined receives its configured default.
\<close>

fun applyDefaults :: "fieldConfig list \<Rightarrow> resolved \<Rightarrow> resolved \<Rightarrow> resolved" where
  "applyDefaults [] input rd = rd"
| "applyDefaults (f # fs) input rd =
     applyDefaults fs input
       (case (rd (fieldPath f), defaultValue f) of
          (None, Some d) \<Rightarrow> rd(fieldPath f \<mapsto> d input)
        | _ \<Rightarrow> rd)"

text \<open>
  Modelled from the spec: a stage over all fields (its code is not among the
  sources). Every field computes from the same arguments, with no order among the
  fields; the stage is complete when all have finished and fails when one throws.
  The results are listed in the order of the fields.
\<close>

fun invokeAll ::
  "(fieldConfig \<Rightarrow> (hookArgs \<Rightarrow> thrown + 'a) option) \<Rightarrow> fieldConfig list \<Rightarrow> hookArgs
     \<Rightarrow> (string \<times> (thrown + 'a)) list"
where
  "invokeAll sel [] args = []"
| "invokeAll sel (f # fs) args =
     (case sel f of
        None \<Rightarrow> invokeAll sel fs args
      | Some h \<Rightarrow> (fieldPath f, h args) # invokeAll sel fs args)"

text \<open>The new values of a field stage written over the resolved data, each in its own slot.\<close>

fun mergeValues :: "resolved \<Rightarrow> (string \<times> (thrown + val option)) list \<Rightarrow> resolved" where
  "mergeValues rd [] = rd"
| "mergeValues rd ((p, Inl e) # rs) = mergeValues rd rs"
| "mergeValues rd ((p, Inr v) # rs) = mergeValues (rd(p := v)) rs"

definition fieldStage ::
  "(fieldConfig \<Rightarrow> (hookArgs \<Rightarrow> thrown + val option) option) \<Rightarrow> fieldConfig list \<Rightarrow> hookArgs
     \<Rightarrow> thrown + resolved"
where
  "fieldStage sel fs args =
     (let rs = invokeAll sel fs args in
      case firstError (map snd rs) of
        Some e \<Rightarrow> Inl e
      | None \<Rightarrow> Inr (mergeValues (resolvedData args) rs))"

text \<open>
  Modelled from the spec: stages 1 to 5 for create and update (their code is not
  among the sources): defaults (create only), relationship resolution, field-value
  coercion, the fields' \<open>resolveInput\<close>, the list's \<open>resolveInput\<close>. The result
  is the events of the resolveInput hooks invoked and the final resolved data, or
  what was thrown. Nested operations on related lists are part of what a field's
  relationship resolution computes and are not followed into the other list.
\<close>

definition resolveStages ::
  "listConfig \<Rightarrow> operation \<Rightarrow> resolved \<Rightarrow> item option \<Rightarrow> event list \<times> (thrown + resolved)"
where
  "resolveStages cfg op input existing =
     (let args0 = argsOf op input existing
                    (if op = Create then applyDefaults (listFields cfg) input input else input)
      in case fieldStage (\<lambda>f. Some (resolveRelationship f)) (listFields cfg) args0 of
        Inl e \<Rightarrow> ([], Inl e)
      | Inr rd2 \<Rightarrow>
          (case fieldStage (\<lambda>f. Some (coerceValue f)) (listFields cfg) (args0\<lparr>resolvedData := rd2\<rparr>) of
             Inl e \<Rightarrow> ([], Inl e)
           | Inr rd3 \<Rightarrow>
               (let args3 = args0\<lparr>resolvedData := rd3\<rparr>;
                    evs4 = map (\<lambda>r. Invoked ResolveInput (Some (fst r)))
                             (invokeAll (\<lambda>f. resolveInput (fieldHooks f)) (listFields cfg) args3)
                in case fieldStage (\<lambda>f. resolveInput (fieldHooks f)) (listFields cfg) args3 of
                  Inl e \<Rightarrow> (evs4, Inl e)
                | Inr rd4 \<Rightarrow>
                    (case resolveInput (listHooks cfg) of
                       None \<Rightarrow> (evs4, Inr rd4)
                     | Some h \<Rightarrow>
                         (evs4 @ [Invoked ResolveInput None],
                          h (args3\<lparr>resolvedData := rd4\<rparr>))))))"

text \<open>
  Modelled from the spec: the validation stage (its code is not among the
  sources). All field-level hooks, then the list-level hook; the messages recorded
  accumulate, field messages first. A hook that throws aborts the pipeline.
\<close>

definition validationStage ::
  "hookName \<Rightarrow> ('r hooks \<Rightarrow> (hookArgs \<Rightarrow> thrown + string list) option) \<Rightarrow>
     (fieldConfig \<Rightarrow> 'r hooks) \<Rightarrow> fieldConfig list \<Rightarrow> (hookArgs \<Rightarrow> thrown + string list) option
     \<Rightarrow> hookArgs \<Rightarrow> event list \<times> (thrown + string list)"
where
  "validationStage name sel hooksOf fs listHook args =
     (let rs = invokeAll (\<lambda>f. sel (hooksOf f)) fs args;
          evs = map (\<lambda>r. Invoked name (Some (fst r))) rs
      in case firstError (map snd rs) of
        Some e \<Rightarrow> (evs, Inl e)
      | None \<Rightarrow>
          (case listHook of
             None \<Rightarrow> (evs, Inr (concat (fulfilled (map snd rs))))
           | Some h \<Rightarrow>
               (case h args of
                  Inl e \<Rightarrow> (evs @ [Invoked name None], Inl e)
                | Inr msgs \<Rightarrow> (evs @ [Invoked name None], Inr (concat (fulfilled (map snd rs)) @ msgs)))))"

text \<open>
  Modelled from the spec: a side-effect stage (its code is not among the sources):
  the fields' hooks, then the list's hook.
\<close>

definition effectStage ::
  "hookName \<Rightarrow> ('r hooks \<Rightarrow> (hookArgs \<Rightarrow> thrown + unit) option) \<Rightarrow>
     (fieldConfig \<Rightarrow> 'r hooks) \<Rightarrow> fieldConfig list \<Rightarrow> (hookArgs \<Rightarrow> thrown + unit) option
     \<Rightarrow> hookArgs \<Rightarrow> event list \<times> thrown option"
where
  "effectStage name sel hooksOf fs listHook args =
     (let rs = invokeAll (\<lambda>f. sel (hooksOf f)) fs args;
          evs = map (\<lambda>r. Invoked name (Some (fst r))) rs
      in case firstError (map snd rs) of
        Some e \<Rightarrow> (evs, Some e)
      | None \<Rightarrow>
          (case listHook of
             None \<Rightarrow> (evs, None)
           | Some h \<Rightarrow>
               (case h args of
                  Inl e \<Rightarrow> (evs @ [Invoked name None], Some e)
                | Inr u \<Rightarrow> (evs @ [Invoked name None], None))))"

definition logged :: "event list \<Rightarrow> listState \<Rightarrow> listState" where
  "logged evs st = st\<lparr>events := events st @ evs\<rparr>"

text \<open>
  Modelled from the spec: persistence (its code is not among the sources). A
  created item receives the next id; an updated item has the resolved data written
  over its fields.
\<close>

definition persist :: "operation \<Rightarrow> item option \<Rightarrow> resolved \<Rightarrow> listState \<Rightarrow> item \<times> listState" where
  "persist op existing rd st =
     (case existing of
        None \<Rightarrow>
          (let it = \<lparr>itemId = nextId st, fieldVals = rd\<rparr>
           in (it, st\<lparr>rows := rows st @ [it], nextId := Suc (nextId st),
                     events := events st @ [Persisted op (nextId st)]\<rparr>))
      | Some old \<Rightarrow>
          (let it = old\<lparr>fieldVals := fieldVals old ++ rd\<rparr>
           in (it, st\<lparr>rows := map (\<lambda>x. if itemId x = itemId old then it else x) (rows st),
                     events := events st @ [Persisted op (itemId old)]\<rparr>)))"

text \<open>
  Modelled from the spec: a create or update of one item (its code is not among
  the sources), from the resolver stages through validation, the before-hooks and
  persistence to the after-hooks, each stage after the one before it.
\<close>

definition changeItem ::
  "listConfig \<Rightarrow> operation \<Rightarrow> resolved \<Rightarrow> item option \<Rightarrow> listState \<Rightarrow> (failure + item) \<times> listState"
where
  "changeItem cfg op input existing st =
     (case resolveStages cfg op input existing of
        (evs1, Inl e) \<Rightarrow> (Inl (HookFailure e), logged evs1 st)
      | (evs1, Inr rd) \<Rightarrow>
          (let args = argsOf op input existing rd
           in case validationStage ValidateInput validateInput fieldHooks (listFields cfg)
                     (validateInput (listHooks cfg)) args of
             (evs2, Inl e) \<Rightarrow> (Inl (HookFailure e), logged (evs1 @ evs2) st)
           | (evs2, Inr msgs) \<Rightarrow>
               if msgs \<noteq> [] then (Inl (ValidationFailureError msgs), logged (evs1 @ evs2) st)
               else
                 (case effectStage BeforeChange beforeChange fieldHooks (listFields cfg)
                         (beforeChange (listHooks cfg)) args of
                    (evs3, Some e) \<Rightarrow> (Inl (HookFailure e), logged (evs1 @ evs2 @ evs3) st)
                  | (evs3, None) \<Rightarrow>
                      (case persist op existing rd (logged (evs1 @ evs2 @ evs3) st) of
                         (it, st1) \<Rightarrow>
                           (case effectStage AfterChange afterChange fieldHooks (listFields cfg)
                                   (afterChange (listHooks cfg)) (args\<lparr>updatedItem := Some it\<rparr>) of
                              (evs4, Some e) \<Rightarrow> (Inl (HookFailure e), logged evs4 st1)
                            | (evs4, None) \<Rightarrow> (Inr it, logged evs4 st1))))))"

definition createItem :: "listConfig \<Rightarrow> resolved \<Rightarrow> listState \<Rightarrow> (failure + item) \<times> listState" where
  "createItem cfg input st = changeItem cfg Create input None st"

definition updateItem :: "listConfig \<Rightarrow> nat \<Rightarrow> resolved \<Rightarrow> listState \<Rightarrow> (failure + item) \<times> listState" where
  "updateItem cfg i input st =
     (case withId i (rows st) of
        [] \<Rightarrow> (Inl NoSuchItem, st)
      | old # others \<Rightarrow> changeItem cfg Update input (Some old) st)"

text \<open>
  Modelled from the spec: a delete of one item (its code is not among the
  sources): access control, the \<open>validateDelete\<close> hooks, the \<open>beforeDelete\<close>
  hooks, the delete, the \<open>afterDelete\<close> hooks.
\<close>

definition deleteItem :: "listConfig \<Rightarrow> nat \<Rightarrow> listState \<Rightarrow> (failure + item) \<times> listState" where
  "deleteItem cfg i st =
     (case withId i (rows st) of
        [] \<Rightarrow> (Inl NoSuchItem, st)
      | old # others \<Rightarrow>
          if \<not> deleteAccess cfg old then (Inl AccessDenied, st)
          else
            (let args = argsOf Delete (\<lambda>k. None) (Some old) (\<lambda>k. None)
             in case validationStage ValidateDelete validateDelete fieldHooks (listFields cfg)
                       (validateDelete (listHooks cfg)) args of
               (evs2, Inl e) \<Rightarrow> (Inl (HookFailure e), logged evs2 st)
             | (evs2, Inr msgs) \<Rightarrow>
                 if msgs \<noteq> [] then (Inl (ValidationFailureError msgs), logged evs2 st)
                 else
                   (case effectStage BeforeDelete beforeDelete fieldHooks (listFields cfg)
                           (beforeDelete (listHooks cfg)) args of
                      (evs3, Some e) \<Rightarrow> (Inl (HookFailure e), logged (evs2 @ evs3) st)
                    | (evs3, None) \<Rightarrow>
                        (let st1 = st\<lparr>rows := filter (\<lambda>x. itemId x \<noteq> i) (rows st),
                                      events := events st @ evs2 @ evs3 @ [Persisted Delete i]\<rparr>
                         in case effectStage AfterDelete afterDelete fieldHooks (listFields cfg)
                                   (afterDelete (listHooks cfg)) args of
                           (evs4, Some e) \<Rightarrow> (Inl (HookFailure e), logged evs4 st1)
                         | (evs4, None) \<Rightarrow> (Inr old, logged evs4 st1)))))"

text \<open>
  The events that must not follow a failed validation: a before- or after-hook,
  or a write to storage.
\<close>

fun pastValidation :: "event \<Rightarrow> bool" where
  "pastValidation (Persisted op i) = True"
| "pastValidation (Invoked BeforeChange p) = True"
| "pastValidation (Invoked AfterChange p) = True"
| "pastValidation (Invoked BeforeDelete p) = True"
| "pastValidation (Invoked AfterDelete p) = True"
| "pastValidation (Invoked name p) = False"

text \<open>
  What the validation hooks of a run did: the results of the field hooks (in field
  order) and of the list hook, if there is one. \<open>recorded\<close> is every message the
  hooks that completed recorded, field messages first; \<open>noneThrew\<close> says that
  every validation hook completed.
\<close>

definition recorded ::
  "(string \<times> (thrown + string list)) list \<Rightarrow> (thrown + string list) option \<Rightarrow> string list"
where
  "recorded rs l =
     concat (fulfilled (map snd rs)) @ (case l of Some (Inr msgs) \<Rightarrow> msgs | _ \<Rightarrow> [])"

definition noneThrew ::
  "(string \<times> (thrown + string list)) list \<Rightarrow> (thrown + string list) option \<Rightarrow> bool"
where
  "noneThrew rs l =
     (firstError (map snd rs) = None \<and> (case l of Some (Inl e) \<Rightarrow> False | _ \<Rightarrow> True))"

text \<open>The events of a run: those of the state after it that the state before it did not have.\<close>

definition newEvents :: "listState \<Rightarrow> listState \<Rightarrow> event list" where
  "newEvents st st' = drop (length (events st)) (events st')"

section \<open>Example list\<close>

definition noHooks :: "'r hooks" where
  "noHooks =
     \<lparr>resolveInput = None, validateInput = None, beforeChange = None, afterChange = None,
      validateDelete = None, beforeDelete = None, afterDelete = None\<rparr>"

text \<open>
  A text field. When \<open>isRequired\<close>, its \<open>validateInput\<close> hook records a message if
  a create leaves it without a value or an update sets it to \<^verbatim>\<open>null\<close>.
\<close>

definition textField :: "string \<Rightarrow> bool \<Rightarrow> fieldConfig" where
  "textField path isRequired =
     \<lparr>fieldPath = path,
      defaultValue = None,
      resolveRelationship = (\<lambda>args. Inr (resolvedData args path)),
      coerceValue = (\<lambda>args. Inr (resolvedData args path)),
      fieldHooks = noHooks
        \<lparr>validateInput :=
           (if isRequired
            then Some (\<lambda>args.
                   Inr (if (case operation args of
                              Create \<Rightarrow> \<not> nonNull (resolvedData args path)
                            | _ \<Rightarrow> resolvedData args path = Some VNull)
                        then [''Required field '' @ path @ '' is null or undefined'']
                        else []))
            else None),
         beforeChange := Some (\<lambda>args. Inr ()),
         validateDelete :=
           (if isRequired
            then Some (\<lambda>args. Inr [''Items with a '' @ path @ '' cannot be deleted''])
            else None)\<rparr>\<rparr>"

definition testList :: listConfig where
  "testList =
     \<lparr>listFields = [textField ''name'' False, textField ''testField'' True],
      listHooks = noHooks\<lparr>afterChange := Some (\<lambda>args. Inr ()), afterDelete := Some (\<lambda>args. Inr ())\<rparr>,
      deleteAccess = (\<lambda>it. True)\<rparr>"

definition emptyList :: listState where
  "emptyList = \<lparr>rows = [], nextId = 1, events = []\<rparr>"

definition oneRow :: listState where
  "oneRow =
     \<lparr>rows = [\<lparr>itemId = 1, fieldVals = [''name'' \<mapsto> VStr ''test entry'', ''testField'' \<mapsto> VStr ''x'']\<rparr>],
      nextId = 2, events = []\<rparr>"

section \<open>Password reset: storage lemmas\<close>

lemma updateOne_calls:
  "calls (snd (updateOne w i d st)) = calls st @ [(i, d)]"
  by (simp add: updateOne_def Let_def)

lemma updateOne_ok:
  assumes "updateOne w i d st = (Inr u, st1)"
  shows "withId i (items st) \<noteq> []"
    and "items st1 = map (\<lambda>it. if itemId it = i then it\<lparr>fieldVals := assign (fieldVals it) d\<rparr> else it) (items st)"
    and "calls st1 = calls st @ [(i, d)]"
    and "sent st1 = sent st"
  using assms by (auto simp: updateOne_def Let_def split: if_splits)

lemma updateOne_fail:
  assumes "updateOne w i d st = (Inl e, st1)"
  shows "items st1 = items st" and "calls st1 = calls st @ [(i, d)]"
  using assms by (auto simp: updateOne_def Let_def split: if_splits)

lemma withId_map:
  "withId i (map (\<lambda>it. if itemId it = j then it\<lparr>fieldVals := f it\<rparr> else it) its)
     = map (\<lambda>it. if itemId it = j then it\<lparr>fieldVals := f it\<rparr> else it) (withId i its)"
  by (induction its) (auto simp: withId_def)

lemma withId_itemId: "x \<in> set (withId i its) \<Longrightarrow> itemId x = i"
  by (simp add: withId_def)

lemma updateOne_written:
  assumes "updateOne w i d st = (Inr u, st1)"
  shows "withId i (items st1) \<noteq> []"
    and "list_all (\<lambda>x. \<forall>k v. map_of (rev d) k = Some v \<longrightarrow> fieldVals x k = Some v) (withId i (items st1))"
proof -
  have nz: "withId i (items st) \<noteq> []" and its: "items st1 = map (\<lambda>it. if itemId it = i then it\<lparr>fieldVals := assign (fieldVals it) d\<rparr> else it) (items st)"
    using updateOne_ok[OF assms] by auto
  show "withId i (items st1) \<noteq> []" using nz by (simp add: its withId_map)
  show "list_all (\<lambda>x. \<forall>k v. map_of (rev d) k = Some v \<longrightarrow> fieldVals x k = Some v) (withId i (items st1))"
    unfolding its withId_map list_all_iff
    by (auto simp: assign_def map_add_def dest: withId_itemId)
qed

lemma updateOne_through:
  assumes "fst (updateOne w i d st) = Inr u"
  shows "items (snd (updateOne w i d st)) = itemsAfter i d (items st)"
    and "withId i (items st) \<noteq> []"
  using assms by (auto simp: updateOne_def itemsAfter_def Let_def split: if_splits)

lemma updateOne_thrown:
  assumes "fst (updateOne w i d st) = Inl e"
  shows "items (snd (updateOne w i d st)) = items st"
  using assms by (auto simp: updateOne_def Let_def split: if_splits)

lemma updateOne_sent: "sent (snd (updateOne w i d st)) = sent st"
  by (simp add: updateOne_def Let_def)

lemma withId_itemsAfter:
  "withId i (itemsAfter j d its) = itemsAfter j d (withId i its)"
  by (simp add: itemsAfter_def withId_map)

lemma assign_hit: "map_of (rev d) k = Some v \<Longrightarrow> assign f d k = Some v"
  unfolding assign_def by (rule map_add_find_right)

lemma assign_miss: "map_of (rev d) k = None \<Longrightarrow> assign f d k = f k"
  unfolding assign_def map_add_def by (simp only: option.case)

lemma withId_itemsAfter_same:
  "withId i (itemsAfter i d its) = map (\<lambda>it. it\<lparr>fieldVals := assign (fieldVals it) d\<rparr>) (withId i its)"
  by (induction its) (simp_all add: withId_def itemsAfter_def)

lemma itemsAfter_holds:
  assumes "map_of (rev d) k = Some v"
  shows "list_all (\<lambda>x. fieldVals x k = Some v) (withId i (itemsAfter i d its))"
  unfolding withId_itemsAfter_same list_all_iff
  by (simp add: assign_hit[OF assms])

lemma itemsAfter_keeps:
  assumes "map_of (rev d) k = None"
    and "list_all (\<lambda>x. fieldVals x k = v) (withId i its)"
  shows "list_all (\<lambda>x. fieldVals x k = v) (withId i (itemsAfter i d its))"
  using assms(2) unfolding withId_itemsAfter_same list_all_iff
  by (simp add: assign_miss[OF assms(1)])

lemma sendToken_items:
  "items (snd (sendToken w i a t st)) = items st \<and> calls (snd (sendToken w i a t st)) = calls st"
  by (simp add: sendToken_def)

section \<open>Password reset: the resolvers by cases\<close>

lemma send_created:
  assumes "createAuthToken h (identityField cfg) (protectIdentities cfg) identity (items st) entropy
             = Inr (CreateSuccess i token)"
  shows "sendItemPasswordResetLink h cfg w identity entropy now st
           = (case fst (updateOne w i (issueData token now) st) of
                Inl e \<Rightarrow> (Inl e, snd (updateOne w i (issueData token now) st))
              | Inr u \<Rightarrow>
                  (case fst (sendToken w i identity token (snd (updateOne w i (issueData token now) st))) of
                     Inl e \<Rightarrow>
                       (Inl e, snd (sendToken w i identity token (snd (updateOne w i (issueData token now) st))))
                   | Inr u \<Rightarrow>
                       (Inr None,
                        snd (sendToken w i identity token (snd (updateOne w i (issueData token now) st))))))"
  by (simp add: sendItemPasswordResetLink_def assms issueData_def case_prod_beta split: sum.splits)

lemma send_not_created:
  shows "createAuthToken h (identityField cfg) (protectIdentities cfg) identity (items st) entropy = Inl e
           \<Longrightarrow> sendItemPasswordResetLink h cfg w identity entropy now st = (Inl e, st)"
    and "createAuthToken h (identityField cfg) (protectIdentities cfg) identity (items st) entropy
           = Inr (CreateFailure (Some c))
           \<Longrightarrow> sendItemPasswordResetLink h cfg w identity entropy now st = (Inr (errorResult h cfg c), st)"
    and "createAuthToken h (identityField cfg) (protectIdentities cfg) identity (items st) entropy
           = Inr (CreateFailure None)
           \<Longrightarrow> sendItemPasswordResetLink h cfg w identity entropy now st = (Inr None, st)"
  by (simp_all add: sendItemPasswordResetLink_def)

lemma redeem_validated:
  assumes "validateAuthToken h tokenType (identityField cfg) identity (protectIdentities cfg)
             (tokensValidForMins cfg) token (items st) now = Inr (ValidateSuccess it)"
  shows "redeemItemPasswordResetToken h cfg w identity token secret now st
           = (case fst (updateOne w (itemId it) (redeemData now) st) of
                Inl e \<Rightarrow> (Inl e, snd (updateOne w (itemId it) (redeemData now) st))
              | Inr u \<Rightarrow>
                  (case fst (updateOne w (itemId it) (secretData cfg secret)
                               (snd (updateOne w (itemId it) (redeemData now) st))) of
                     Inl e \<Rightarrow>
                       (Inl e, snd (updateOne w (itemId it) (secretData cfg secret)
                                      (snd (updateOne w (itemId it) (redeemData now) st))))
                   | Inr u \<Rightarrow>
                       (Inr None, snd (updateOne w (itemId it) (secretData cfg secret)
                                         (snd (updateOne w (itemId it) (redeemData now) st))))))"
  by (simp add: redeemItemPasswordResetToken_def assms redeemData_def secretData_def case_prod_beta
           split: sum.splits)

lemma redeem_not_validated:
  shows "validateAuthToken h tokenType (identityField cfg) identity (protectIdentities cfg)
             (tokensValidForMins cfg) token (items st) now = Inl e
           \<Longrightarrow> redeemItemPasswordResetToken h cfg w identity token secret now st = (Inl e, st)"
    and "validateAuthToken h tokenType (identityField cfg) identity (protectIdentities cfg)
             (tokensValidForMins cfg) token (items st) now = Inr (ValidateFailure c)
           \<Longrightarrow> redeemItemPasswordResetToken h cfg w identity token secret now st
                 = (Inr (errorResult h cfg c), st)"
  by (simp_all add: redeemItemPasswordResetToken_def)

lemma validate_query_cases:
  shows "validateAuthToken h tokenType (identityField cfg) identity (protectIdentities cfg)
             (tokensValidForMins cfg) token (items st) now = Inl e
           \<Longrightarrow> validateItemPasswordResetToken h cfg w identity token now st = (Inl e, st)"
    and "validateAuthToken h tokenType (identityField cfg) identity (protectIdentities cfg)
             (tokensValidForMins cfg) token (items st) now = Inr (ValidateFailure c)
           \<Longrightarrow> validateItemPasswordResetToken h cfg w identity token now st
                 = (Inr (errorResult h cfg c), st)"
    and "validateAuthToken h tokenType (identityField cfg) identity (protectIdentities cfg)
             (tokensValidForMins cfg) token (items st) now = Inr (ValidateSuccess it)
           \<Longrightarrow> validateItemPasswordResetToken h cfg w identity token now st = (Inr None, st)"
  by (simp_all add: validateItemPasswordResetToken_def)

section \<open>Password reset: evaluation of the examples\<close>

lemmas auth_eval =
  specHelpers_def validateAuthToken_spec_def createAuthToken_spec_def matching_def store_def
  alice_def aliceIssued_def tokenType_def nonNull_def validityWindow_def userConfig_def
  protectedConfig_def calmWorld_def strictWorld_def assign_def withId_def updateOne_def
  sendToken_def Let_def offlineWorld_def failingHelpers_def

lemma redeem_calm_eval:
  "fst (redeemItemPasswordResetToken specHelpers userConfig calmWorld ''a@x.com'' ''t0k3n'' ''hunter2'' 2000
       (store [aliceIssued])) = Inr None"
  by (simp add: redeemItemPasswordResetToken_def auth_eval)

lemma redeem_strict_eval:
  "fst (redeemItemPasswordResetToken specHelpers userConfig strictWorld ''a@x.com'' ''t0k3n'' ''123'' 2000
       (store [aliceIssued])) = Inl UpdateRejected"
  by (simp add: redeemItemPasswordResetToken_def auth_eval)

lemma validate_issued_eval:
  "validateAuthToken specHelpers tokenType (identityField userConfig) ''a@x.com''
     (protectIdentities userConfig) (tokensValidForMins userConfig) ''t0k3n''
     (items (store [aliceIssued])) 2000 = Inr (ValidateSuccess aliceIssued)"
  by (simp add: auth_eval)

lemma redeem_calm_calls_eval:
  "calls (snd (redeemItemPasswordResetToken specHelpers userConfig calmWorld ''a@x.com'' ''t0k3n''
          ''hunter2'' 2000 (store [aliceIssued])))
       = [(1, [(''passwordResetRedeemedAt'', VTime 2000)]), (1, [(''password'', VStr ''hunter2'')])]"
  by (simp add: redeemItemPasswordResetToken_def auth_eval)

section \<open>Password reset: the redeem mutation writes twice\<close>

text \<open>
  Claim C2. Every redeem call that succeeds (returns \<^verbatim>\<open>null\<close>) has made exactly two
  \<^verbatim>\<open>updateOne\<close> calls, in this order: one that sets \<open>passwordResetRedeemedAt\<close> to the
  current time, then one that sets the secret field to the new secret; and both
  writes are stored: the items afterwards are the items before with the first and
  then the second data written over the validated item, which holds the new secret
  (and the redemption time, unless the secret field is that very field), and
  nothing is sent. The two writes are independent: when the first goes through and
  the second throws, the resolver throws that error, both calls have been made, and
  the stored item keeps the redemption time of the first write. This holds for
  every implementation of the imported helpers.
\<close>

theorem C2_redeem_two_writes:
  assumes "redeemItemPasswordResetToken h cfg w identity token secret now st = (r, st')"
  shows "(r = Inr None \<longrightarrow>
           (\<exists>it. validateAuthToken h tokenType (identityField cfg) identity (protectIdentities cfg)
                    (tokensValidForMins cfg) token (items st) now = Inr (ValidateSuccess it)
                \<and> calls st' = calls st @
                      [(itemId it, [(tokenType @ ''RedeemedAt'', VTime now)]),
                       (itemId it, [(secretField cfg, VStr secret)])]
                \<and> items st' =
                      itemsAfter (itemId it) [(secretField cfg, VStr secret)]
                        (itemsAfter (itemId it) [(tokenType @ ''RedeemedAt'', VTime now)] (items st))
                \<and> withId (itemId it) (items st') \<noteq> []
                \<and> list_all (\<lambda>x. fieldVals x (secretField cfg) = Some (VStr secret))
                      (withId (itemId it) (items st'))
                \<and> (secretField cfg \<noteq> tokenType @ ''RedeemedAt'' \<longrightarrow>
                      list_all (\<lambda>x. fieldVals x (tokenType @ ''RedeemedAt'') = Some (VTime now))
                        (withId (itemId it) (items st')))
                \<and> sent st' = sent st))
       \<and> (\<forall>it st1 e.
             validateAuthToken h tokenType (identityField cfg) identity (protectIdentities cfg)
               (tokensValidForMins cfg) token (items st) now = Inr (ValidateSuccess it)
           \<and> updateOne w (itemId it) [(tokenType @ ''RedeemedAt'', VTime now)] st = (Inr (), st1)
           \<and> fst (updateOne w (itemId it) [(secretField cfg, VStr secret)] st1) = Inl e
           \<longrightarrow> r = Inl e
             \<and> calls st' = calls st @
                   [(itemId it, [(tokenType @ ''RedeemedAt'', VTime now)]),
                    (itemId it, [(secretField cfg, VStr secret)])]
             \<and> items st' = items st1
             \<and> items st' = itemsAfter (itemId it) [(tokenType @ ''RedeemedAt'', VTime now)] (items st)
             \<and> withId (itemId it) (items st') \<noteq> []
             \<and> list_all (\<lambda>x. fieldVals x (tokenType @ ''RedeemedAt'') = Some (VTime now))
                  (withId (itemId it) (items st')))"
proof (rule conjI)
  let ?v = "validateAuthToken h tokenType (identityField cfg) identity (protectIdentities cfg)
              (tokensValidForMins cfg) token (items st) now"
  show "r = Inr None \<longrightarrow>
           (\<exists>it. ?v = Inr (ValidateSuccess it)
                \<and> calls st' = calls st @
                      [(itemId it, [(tokenType @ ''RedeemedAt'', VTime now)]),
                       (itemId it, [(secretField cfg, VStr secret)])]
                \<and> items st' =
                      itemsAfter (itemId it) [(secretField cfg, VStr secret)]
                        (itemsAfter (itemId it) [(tokenType @ ''RedeemedAt'', VTime now)] (items st))
                \<and> withId (itemId it) (items st') \<noteq> []
                \<and> list_all (\<lambda>x. fieldVals x (secretField cfg) = Some (VStr secret))
                      (withId (itemId it) (items st'))
                \<and> (secretField cfg \<noteq> tokenType @ ''RedeemedAt'' \<longrightarrow>
                      list_all (\<lambda>x. fieldVals x (tokenType @ ''RedeemedAt'') = Some (VTime now))
                        (withId (itemId it) (items st')))
                \<and> sent st' = sent st)"
  proof (rule impI)
    assume ok: "r = Inr None"
    obtain it where v: "?v = Inr (ValidateSuccess it)"
    proof (cases ?v)
      case (Inl e)
      then have False using assms ok by (simp add: redeem_not_validated(1))
      then show ?thesis ..
    next
      case (Inr res)
      show ?thesis
      proof (cases res)
        case (ValidateFailure c)
        then have False using assms ok Inr by (simp add: redeem_not_validated(2) errorResult_def)
        then show ?thesis ..
      next
        case (ValidateSuccess it)
        then show ?thesis using Inr that by simp
      qed
    qed
    let ?d1 = "[(tokenType @ ''RedeemedAt'', VTime now)]"
    let ?d2 = "[(secretField cfg, VStr secret)]"
    let ?U1 = "updateOne w (itemId it) ?d1 st"
    let ?U2 = "updateOne w (itemId it) ?d2 (snd ?U1)"
    note run = redeem_validated[OF v, of w secret, unfolded redeemData_def secretData_def]
    have f1: "fst ?U1 = Inr ()"
      using assms ok unfolding run by (cases "fst ?U1") simp_all
    have f2: "fst ?U2 = Inr ()"
      using assms ok f1 unfolding run by (cases "fst ?U2") simp_all
    have e: "st' = snd ?U2"
      using assms f1 f2 unfolding run by simp
    have c: "calls st' = calls st @ [(itemId it, ?d1), (itemId it, ?d2)]"
      unfolding e by (simp add: updateOne_calls)
    have i1: "items (snd ?U1) = itemsAfter (itemId it) ?d1 (items st)"
      by (rule updateOne_through(1)[OF f1])
    have its: "items st' = itemsAfter (itemId it) ?d2 (itemsAfter (itemId it) ?d1 (items st))"
      unfolding e using updateOne_through(1)[OF f2] i1 by simp
    have nz0: "withId (itemId it) (items st) \<noteq> []"
      by (rule updateOne_through(2)[OF f1])
    have nz: "withId (itemId it) (items st') \<noteq> []"
      unfolding its withId_itemsAfter_same using nz0 by simp
    have sec: "list_all (\<lambda>x. fieldVals x (secretField cfg) = Some (VStr secret))
                 (withId (itemId it) (items st'))"
      unfolding its by (rule itemsAfter_holds) simp
    have red1: "list_all (\<lambda>x. fieldVals x (tokenType @ ''RedeemedAt'') = Some (VTime now))
                 (withId (itemId it) (itemsAfter (itemId it) ?d1 (items st)))"
      by (rule itemsAfter_holds) simp
    have red: "secretField cfg \<noteq> tokenType @ ''RedeemedAt'' \<longrightarrow>
                 list_all (\<lambda>x. fieldVals x (tokenType @ ''RedeemedAt'') = Some (VTime now))
                   (withId (itemId it) (items st'))"
    proof (rule impI)
      assume ne: "secretField cfg \<noteq> tokenType @ ''RedeemedAt''"
      show "list_all (\<lambda>x. fieldVals x (tokenType @ ''RedeemedAt'') = Some (VTime now))
                   (withId (itemId it) (items st'))"
        unfolding its by (rule itemsAfter_keeps[OF _ red1]) (use ne in auto)
    qed
    have sn: "sent st' = sent st"
      unfolding e by (simp add: updateOne_sent)
    from v c its nz sec red sn
    show "\<exists>it. ?v = Inr (ValidateSuccess it)
                \<and> calls st' = calls st @
                      [(itemId it, [(tokenType @ ''RedeemedAt'', VTime now)]),
                       (itemId it, [(secretField cfg, VStr secret)])]
                \<and> items st' =
                      itemsAfter (itemId it) [(secretField cfg, VStr secret)]
                        (itemsAfter (itemId it) [(tokenType @ ''RedeemedAt'', VTime now)] (items st))
                \<and> withId (itemId it) (items st') \<noteq> []
                \<and> list_all (\<lambda>x. fieldVals x (secretField cfg) = Some (VStr secret))
                      (withId (itemId it) (items st'))
                \<and> (secretField cfg \<noteq> tokenType @ ''RedeemedAt'' \<longrightarrow>
                      list_all (\<lambda>x. fieldVals x (tokenType @ ''RedeemedAt'') = Some (VTime now))
                        (withId (itemId it) (items st')))
                \<and> sent st' = sent st"
      by blast
  qed
next
  show "\<forall>it st1 e.
             validateAuthToken h tokenType (identityField cfg) identity (protectIdentities cfg)
               (tokensValidForMins cfg) token (items st) now = Inr (ValidateSuccess it)
           \<and> updateOne w (itemId it) [(tokenType @ ''RedeemedAt'', VTime now)] st = (Inr (), st1)
           \<and> fst (updateOne w (itemId it) [(secretField cfg, VStr secret)] st1) = Inl e
           \<longrightarrow> r = Inl e
             \<and> calls st' = calls st @
                   [(itemId it, [(tokenType @ ''RedeemedAt'', VTime now)]),
                    (itemId it, [(secretField cfg, VStr secret)])]
             \<and> items st' = items st1
             \<and> items st' = itemsAfter (itemId it) [(tokenType @ ''RedeemedAt'', VTime now)] (items st)
             \<and> withId (itemId it) (items st') \<noteq> []
             \<and> list_all (\<lambda>x. fieldVals x (tokenType @ ''RedeemedAt'') = Some (VTime now))
                  (withId (itemId it) (items st'))"
  proof (intro allI impI)
    fix it :: item and st1 :: state and e :: exn
    let ?d1 = "[(tokenType @ ''RedeemedAt'', VTime now)]"
    let ?d2 = "[(secretField cfg, VStr secret)]"
    let ?U1 = "updateOne w (itemId it) ?d1 st"
    let ?U2 = "updateOne w (itemId it) ?d2 (snd ?U1)"
    assume a: "validateAuthToken h tokenType (identityField cfg) identity (protectIdentities cfg)
               (tokensValidForMins cfg) token (items st) now = Inr (ValidateSuccess it)
           \<and> updateOne w (itemId it) ?d1 st = (Inr (), st1)
           \<and> fst (updateOne w (itemId it) ?d2 st1) = Inl e"
    then have v: "validateAuthToken h tokenType (identityField cfg) identity (protectIdentities cfg)
               (tokensValidForMins cfg) token (items st) now = Inr (ValidateSuccess it)"
      and f1: "fst ?U1 = Inr ()" and s1: "snd ?U1 = st1" and f2: "fst ?U2 = Inl e"
      by simp_all
    note run = redeem_validated[OF v, of w secret, unfolded redeemData_def secretData_def]
    have r: "r = Inl e" and e': "st' = snd ?U2"
      using assms f1 f2 unfolding run by simp_all
    have c: "calls st' = calls st @ [(itemId it, ?d1), (itemId it, ?d2)]"
      unfolding e' by (simp add: updateOne_calls)
    have i1: "items st1 = itemsAfter (itemId it) ?d1 (items st)"
      using updateOne_through(1)[OF f1] s1 by simp
    have i2: "items st' = items st1"
      unfolding e' using updateOne_thrown[OF f2] s1 by simp
    have nz: "withId (itemId it) (items st') \<noteq> []"
      unfolding i2 i1 withId_itemsAfter_same using updateOne_through(2)[OF f1] by simp
    have red: "list_all (\<lambda>x. fieldVals x (tokenType @ ''RedeemedAt'') = Some (VTime now))
                 (withId (itemId it) (items st'))"
      unfolding i2 i1 by (rule itemsAfter_holds) simp
    from r c i2 i1 nz red
    show "r = Inl e
             \<and> calls st' = calls st @
                   [(itemId it, [(tokenType @ ''RedeemedAt'', VTime now)]),
                    (itemId it, [(secretField cfg, VStr secret)])]
             \<and> items st' = items st1
             \<and> items st' = itemsAfter (itemId it) [(tokenType @ ''RedeemedAt'', VTime now)] (items st)
             \<and> withId (itemId it) (items st') \<noteq> []
             \<and> list_all (\<lambda>x. fieldVals x (tokenType @ ''RedeemedAt'') = Some (VTime now))
                  (withId (itemId it) (items st'))"
      by simp
  qed
qed

theorem C2_redeem_two_writes_witness:
  "fst (redeemItemPasswordResetToken specHelpers userConfig calmWorld ''a@x.com'' ''t0k3n'' ''hunter2'' 2000
          (store [aliceIssued])) = Inr None
   \<and> calls (snd (redeemItemPasswordResetToken specHelpers userConfig calmWorld ''a@x.com'' ''t0k3n''
          ''hunter2'' 2000 (store [aliceIssued])))
       = calls (store [aliceIssued]) @
           [(itemId aliceIssued, [(tokenType @ ''RedeemedAt'', VTime 2000)]),
            (itemId aliceIssued, [(secretField userConfig, VStr ''hunter2'')])]
   \<and> list_all (\<lambda>x. fieldVals x (secretField userConfig) = Some (VStr ''hunter2''))
        (withId (itemId aliceIssued)
           (items (snd (redeemItemPasswordResetToken specHelpers userConfig calmWorld ''a@x.com''
              ''t0k3n'' ''hunter2'' 2000 (store [aliceIssued])))))
   \<and> list_all (\<lambda>x. fieldVals x (tokenType @ ''RedeemedAt'') = Some (VTime 2000))
        (withId (itemId aliceIssued)
           (items (snd (redeemItemPasswordResetToken specHelpers userConfig calmWorld ''a@x.com''
              ''t0k3n'' ''hunter2'' 2000 (store [aliceIssued])))))
   \<and> fst (redeemItemPasswordResetToken specHelpers userConfig strictWorld ''a@x.com'' ''t0k3n'' ''123'' 2000
          (store [aliceIssued])) = Inl UpdateRejected
   \<and> list_all (\<lambda>x. fieldVals x (tokenType @ ''RedeemedAt'') = Some (VTime 2000))
        (withId (itemId aliceIssued)
           (items (snd (redeemItemPasswordResetToken specHelpers userConfig strictWorld ''a@x.com''
              ''t0k3n'' ''123'' 2000 (store [aliceIssued])))))"
proof -
  let ?X = "redeemItemPasswordResetToken specHelpers userConfig calmWorld ''a@x.com'' ''t0k3n''
              ''hunter2'' 2000 (store [aliceIssued])"
  let ?Y = "redeemItemPasswordResetToken specHelpers userConfig strictWorld ''a@x.com'' ''t0k3n''
              ''123'' 2000 (store [aliceIssued])"
  let ?st1 = "snd (updateOne strictWorld (itemId aliceIssued) [(tokenType @ ''RedeemedAt'', VTime 2000)]
                (store [aliceIssued]))"
  have x: "fst ?X = Inr None" by (rule redeem_calm_eval)
  have ex: "?X = (Inr None, snd ?X)" using x by (simp add: prod_eq_iff)
  have ne: "secretField userConfig \<noteq> tokenType @ ''RedeemedAt''"
    by (simp add: userConfig_def tokenType_def)
  have "\<exists>it. validateAuthToken specHelpers tokenType (identityField userConfig) ''a@x.com''
             (protectIdentities userConfig) (tokensValidForMins userConfig) ''t0k3n''
             (items (store [aliceIssued])) 2000 = Inr (ValidateSuccess it)
          \<and> calls (snd ?X) = calls (store [aliceIssued]) @
               [(itemId it, [(tokenType @ ''RedeemedAt'', VTime 2000)]),
                (itemId it, [(secretField userConfig, VStr ''hunter2'')])]
          \<and> list_all (\<lambda>x. fieldVals x (secretField userConfig) = Some (VStr ''hunter2''))
               (withId (itemId it) (items (snd ?X)))
          \<and> list_all (\<lambda>x. fieldVals x (tokenType @ ''RedeemedAt'') = Some (VTime 2000))
               (withId (itemId it) (items (snd ?X)))"
    using C2_redeem_two_writes [OF ex] ne by blast
  then have part1: "calls (snd ?X) = calls (store [aliceIssued]) @
               [(itemId aliceIssued, [(tokenType @ ''RedeemedAt'', VTime 2000)]),
                (itemId aliceIssued, [(secretField userConfig, VStr ''hunter2'')])]
          \<and> list_all (\<lambda>x. fieldVals x (secretField userConfig) = Some (VStr ''hunter2''))
               (withId (itemId aliceIssued) (items (snd ?X)))
          \<and> list_all (\<lambda>x. fieldVals x (tokenType @ ''RedeemedAt'') = Some (VTime 2000))
               (withId (itemId aliceIssued) (items (snd ?X)))"
    unfolding validate_issued_eval by blast
  have ey: "?Y = (fst ?Y, snd ?Y)" by simp
  have u1: "updateOne strictWorld (itemId aliceIssued) [(tokenType @ ''RedeemedAt'', VTime 2000)]
              (store [aliceIssued]) = (Inr (), ?st1)"
    by (simp add: auth_eval prod_eq_iff)
  have u2: "fst (updateOne strictWorld (itemId aliceIssued) [(secretField userConfig, VStr ''123'')] ?st1)
              = Inl UpdateRejected"
    by (simp add: auth_eval)
  have part2: "fst ?Y = Inl UpdateRejected
     \<and> list_all (\<lambda>x. fieldVals x (tokenType @ ''RedeemedAt'') = Some (VTime 2000))
          (withId (itemId aliceIssued) (items (snd ?Y)))"
    using C2_redeem_two_writes [OF ey] validate_issued_eval u1 u2 by blast
  show ?thesis using x part1 part2 by blast
qed

section \<open>Password reset: issuing overwrites the token state\<close>

text \<open>
  Claim C5. When \<^verbatim>\<open>createAuthToken\<close> succeeds with an item id and a new token and
  the send-link mutation returns \<^verbatim>\<open>null\<close>, the stored item with that id has, whatever
  its token fields held before, \<open>passwordResetToken\<close> equal to the new token,
  \<open>passwordResetIssuedAt\<close> equal to the current time and \<open>passwordResetRedeemedAt\<close>
  equal to \<^verbatim>\<open>null\<close>.
\<close>

theorem C5_issue_overwrites:
  assumes "createAuthToken h (identityField cfg) (protectIdentities cfg) identity (items st) entropy
             = Inr (CreateSuccess i token)"
    and "sendItemPasswordResetLink h cfg w identity entropy now st = (Inr None, st')"
  shows "withId i (items st') \<noteq> []
       \<and> list_all (\<lambda>x. fieldVals x (tokenType @ ''Token'') = Some (VStr token)
                     \<and> fieldVals x (tokenType @ ''IssuedAt'') = Some (VTime now)
                     \<and> fieldVals x (tokenType @ ''RedeemedAt'') = Some VNull)
           (withId i (items st'))"
proof -
  let ?d = "issueData token now"
  let ?U = "updateOne w i ?d st"
  let ?S = "sendToken w i identity token (snd ?U)"
  note run = send_created[OF assms(1), of w now]
  have u: "fst ?U = Inr ()"
    using assms(2) unfolding run by (cases "fst ?U") (simp_all split: sum.splits)
  have st': "st' = snd ?S"
    using assms(2) u unfolding run by (simp split: sum.splits)
  have its: "items st' = itemsAfter i ?d (items st)"
    unfolding st' using sendToken_items[of w i identity token "snd ?U"] updateOne_through(1)[OF u]
    by simp
  have nz: "withId i (items st') \<noteq> []"
    unfolding its withId_itemsAfter using updateOne_through(2)[OF u]
    by (simp add: itemsAfter_def)
  have t: "list_all (\<lambda>x. fieldVals x (tokenType @ ''Token'') = Some (VStr token)) (withId i (items st'))"
    unfolding its by (rule itemsAfter_holds) (simp add: issueData_def)
  have a: "list_all (\<lambda>x. fieldVals x (tokenType @ ''IssuedAt'') = Some (VTime now)) (withId i (items st'))"
    unfolding its by (rule itemsAfter_holds) (simp add: issueData_def)
  have r: "list_all (\<lambda>x. fieldVals x (tokenType @ ''RedeemedAt'') = Some VNull) (withId i (items st'))"
    unfolding its by (rule itemsAfter_holds) (simp add: issueData_def)
  show ?thesis using nz t a r by (simp add: list_all_iff)
qed

theorem C5_issue_overwrites_witness:
  "createAuthToken specHelpers (identityField userConfig) (protectIdentities userConfig) ''a@x.com''
       (items (store [aliceIssued])) ''n3wt0k'' = Inr (CreateSuccess 1 ''n3wt0k'')
   \<and> fst (sendItemPasswordResetLink specHelpers userConfig calmWorld ''a@x.com'' ''n3wt0k'' 5000
         (store [aliceIssued])) = Inr None
   \<and> withId 1 (items (snd (sendItemPasswordResetLink specHelpers userConfig calmWorld ''a@x.com''
         ''n3wt0k'' 5000 (store [aliceIssued])))) \<noteq> []
   \<and> list_all (\<lambda>x. fieldVals x (tokenType @ ''Token'') = Some (VStr ''n3wt0k'')
                 \<and> fieldVals x (tokenType @ ''IssuedAt'') = Some (VTime 5000)
                 \<and> fieldVals x (tokenType @ ''RedeemedAt'') = Some VNull)
        (withId 1 (items (snd (sendItemPasswordResetLink specHelpers userConfig calmWorld ''a@x.com''
         ''n3wt0k'' 5000 (store [aliceIssued])))))"
proof -
  have c: "createAuthToken specHelpers (identityField userConfig) (protectIdentities userConfig) ''a@x.com''
       (items (store [aliceIssued])) ''n3wt0k'' = Inr (CreateSuccess 1 ''n3wt0k'')"
    by (simp add: auth_eval)
  have r: "fst (sendItemPasswordResetLink specHelpers userConfig calmWorld ''a@x.com'' ''n3wt0k'' 5000
         (store [aliceIssued])) = Inr None"
    by (simp add: sendItemPasswordResetLink_def auth_eval)
  have s: "sendItemPasswordResetLink specHelpers userConfig calmWorld ''a@x.com'' ''n3wt0k'' 5000
         (store [aliceIssued])
       = (Inr None, snd (sendItemPasswordResetLink specHelpers userConfig calmWorld ''a@x.com''
         ''n3wt0k'' 5000 (store [aliceIssued])))"
    using r by (simp add: prod_eq_iff)
  show ?thesis
    using c r C5_issue_overwrites [OF c s] by simp
qed

section \<open>Password reset: failed validation writes nothing\<close>

text \<open>
  Claim C10. Whenever \<^verbatim>\<open>validateAuthToken\<close> does not succeed, the redeem mutation
  and the validate query return the error result and leave the whole state as it
  was: no \<^verbatim>\<open>updateOne\<close> call is made and no field of any item changes.
\<close>

theorem C10_failure_writes_nothing:
  assumes "validateAuthToken h tokenType (identityField cfg) identity (protectIdentities cfg)
             (tokensValidForMins cfg) token (items st) now = Inr (ValidateFailure c)"
  shows "redeemItemPasswordResetToken h cfg w identity token secret now st = (Inr (errorResult h cfg c), st)
       \<and> validateItemPasswordResetToken h cfg w identity token now st = (Inr (errorResult h cfg c), st)"
  using assms by (simp add: redeem_not_validated(2) validate_query_cases(2))

theorem C10_failure_writes_nothing_witness:
  "validateAuthToken specHelpers tokenType (identityField userConfig) ''a@x.com''
       (protectIdentities userConfig) (tokensValidForMins userConfig) ''t0k3n''
       (items (store [alice])) 2000 = Inr (ValidateFailure TOKEN_NOT_SET)
   \<and> redeemItemPasswordResetToken specHelpers userConfig calmWorld ''a@x.com'' ''t0k3n'' ''hunter2'' 2000
       (store [alice]) = (Inr (errorResult specHelpers userConfig TOKEN_NOT_SET), store [alice])
   \<and> validateItemPasswordResetToken specHelpers userConfig calmWorld ''a@x.com'' ''t0k3n'' 2000
       (store [alice]) = (Inr (errorResult specHelpers userConfig TOKEN_NOT_SET), store [alice])"
proof -
  have h: "validateAuthToken specHelpers tokenType (identityField userConfig) ''a@x.com''
       (protectIdentities userConfig) (tokensValidForMins userConfig) ''t0k3n''
       (items (store [alice])) 2000 = Inr (ValidateFailure TOKEN_NOT_SET)"
    by (simp add: auth_eval)
  show ?thesis
    using h C10_failure_writes_nothing [OF h, of calmWorld "''hunter2''"] by simp
qed

section \<open>Password reset: a redeemed token stays redeemed\<close>









section \<open>Password reset: identity protection\<close>

text \<open>
  The statement that, with identity protection, the caller sees the same result
  whether or not the identity exists fails when the delivery callback throws: the
  resolver awaits \<^verbatim>\<open>updateOne\<close> and \<^verbatim>\<open>sendToken\<close> only for an identity that exists.
  In a world whose delivery fails, the call for an identity that no item has
  returns \<^verbatim>\<open>null\<close> and the call for an identity that one item has throws.
\<close>

theorem C3_failed_delivery_tells_apart_counterexample:
  "\<not> (fst (sendItemPasswordResetLink specHelpers protectedConfig offlineWorld ''a@x.com'' ''n3wt0k'' 5000
             (store []))
       = fst (sendItemPasswordResetLink specHelpers protectedConfig offlineWorld ''a@x.com'' ''n3wt0k'' 5000
             (store [alice])))"
  by (simp add: sendItemPasswordResetLink_def auth_eval)

text \<open>
  Claim C3, amended. With identity protection enabled the send-link mutation never
  returns a code and message: whatever it returns is \<^verbatim>\<open>null\<close>. For an identity
  that no item has (or more than one) it returns \<^verbatim>\<open>null\<close> and changes nothing.
  For an identity that exactly one item has it returns \<^verbatim>\<open>null\<close> when the update
  and the delivery go through, and it throws when the update throws or the
  delivery throws. So the returned value does not tell the two cases apart; a
  thrown error of the update or the delivery does.
\<close>

theorem C3_protected_issue_outcomes:
  assumes "protectIdentities cfg"
  shows "(\<forall>r. fst (sendItemPasswordResetLink specHelpers cfg w identity entropy now st) = Inr r
              \<longrightarrow> r = None)
       \<and> (length (matching (identityField cfg) identity (items st)) \<noteq> 1 \<longrightarrow>
            sendItemPasswordResetLink specHelpers cfg w identity entropy now st = (Inr None, st))
       \<and> (\<forall>it. matching (identityField cfg) identity (items st) = [it] \<longrightarrow>
              (fst (updateOne w (itemId it) (issueData entropy now) st) = Inr ()
                 \<and> fst (sendToken w (itemId it) identity entropy
                          (snd (updateOne w (itemId it) (issueData entropy now) st))) = Inr ()
               \<longrightarrow> fst (sendItemPasswordResetLink specHelpers cfg w identity entropy now st) = Inr None)
            \<and> (\<forall>e. fst (updateOne w (itemId it) (issueData entropy now) st) = Inl e
               \<longrightarrow> fst (sendItemPasswordResetLink specHelpers cfg w identity entropy now st) = Inl e)
            \<and> (\<forall>e. fst (updateOne w (itemId it) (issueData entropy now) st) = Inr ()
                 \<and> fst (sendToken w (itemId it) identity entropy
                          (snd (updateOne w (itemId it) (issueData entropy now) st))) = Inl e
               \<longrightarrow> fst (sendItemPasswordResetLink specHelpers cfg w identity entropy now st) = Inl e))"
proof (intro conjI allI impI)
  fix r
  assume r: "fst (sendItemPasswordResetLink specHelpers cfg w identity entropy now st) = Inr r"
  show "r = None"
  proof (cases "createAuthToken_spec (identityField cfg) (protectIdentities cfg) identity (items st) entropy")
    case (CreateFailure c)
    then have "c = None"
      using assms by (auto simp: createAuthToken_spec_def split: list.splits)
    then show ?thesis
      using r CreateFailure by (simp add: send_not_created(3) specHelpers_def)
  next
    case (CreateSuccess i token)
    then have "createAuthToken specHelpers (identityField cfg) (protectIdentities cfg) identity (items st)
                 entropy = Inr (CreateSuccess i token)"
      by (simp add: specHelpers_def)
    from send_created[OF this, of w now] r show ?thesis
      by (simp split: sum.splits)
  qed
next
  assume "length (matching (identityField cfg) identity (items st)) \<noteq> 1"
  then have "createAuthToken specHelpers (identityField cfg) (protectIdentities cfg) identity (items st)
               entropy = Inr (CreateFailure None)"
    using assms by (auto simp: specHelpers_def createAuthToken_spec_def split: list.splits)
  then show "sendItemPasswordResetLink specHelpers cfg w identity entropy now st = (Inr None, st)"
    by (rule send_not_created(3))
next
  fix it
  assume m: "matching (identityField cfg) identity (items st) = [it]"
  have c: "createAuthToken specHelpers (identityField cfg) (protectIdentities cfg) identity (items st)
             entropy = Inr (CreateSuccess (itemId it) entropy)"
    using m by (simp add: specHelpers_def createAuthToken_spec_def)
  note run = send_created[OF c, of w now]
  {
    assume "fst (updateOne w (itemId it) (issueData entropy now) st) = Inr ()
            \<and> fst (sendToken w (itemId it) identity entropy
                     (snd (updateOne w (itemId it) (issueData entropy now) st))) = Inr ()"
    then show "fst (sendItemPasswordResetLink specHelpers cfg w identity entropy now st) = Inr None"
      unfolding run by simp
  }
  {
    fix e
    assume "fst (updateOne w (itemId it) (issueData entropy now) st) = Inl e"
    then show "fst (sendItemPasswordResetLink specHelpers cfg w identity entropy now st) = Inl e"
      unfolding run by simp
  }
  {
    fix e
    assume "fst (updateOne w (itemId it) (issueData entropy now) st) = Inr ()
            \<and> fst (sendToken w (itemId it) identity entropy
                     (snd (updateOne w (itemId it) (issueData entropy now) st))) = Inl e"
    then show "fst (sendItemPasswordResetLink specHelpers cfg w identity entropy now st) = Inl e"
      unfolding run by simp
  }
qed

theorem C3_protected_issue_outcomes_witness:
  "protectIdentities protectedConfig
   \<and> length (matching (identityField protectedConfig) ''a@x.com'' (items (store []))) \<noteq> 1
   \<and> sendItemPasswordResetLink specHelpers protectedConfig calmWorld ''a@x.com'' ''n3wt0k'' 5000 (store [])
       = (Inr None, store [])
   \<and> matching (identityField protectedConfig) ''a@x.com'' (items (store [alice])) = [alice]
   \<and> fst (sendItemPasswordResetLink specHelpers protectedConfig calmWorld ''a@x.com'' ''n3wt0k'' 5000
         (store [alice])) = Inr None
   \<and> fst (sendItemPasswordResetLink specHelpers protectedConfig offlineWorld ''a@x.com'' ''n3wt0k'' 5000
         (store [alice])) = Inl SendTokenFailed"
proof -
  have p: "protectIdentities protectedConfig"
    by (simp add: auth_eval)
  have m0: "length (matching (identityField protectedConfig) ''a@x.com'' (items (store []))) \<noteq> 1"
    by (simp add: auth_eval)
  have m1: "matching (identityField protectedConfig) ''a@x.com'' (items (store [alice])) = [alice]"
    by (simp add: auth_eval)
  have u: "fst (updateOne calmWorld (itemId alice) (issueData ''n3wt0k'' 5000) (store [alice])) = Inr ()"
    by (simp add: auth_eval)
  have s: "fst (sendToken calmWorld (itemId alice) ''a@x.com'' ''n3wt0k''
                  (snd (updateOne calmWorld (itemId alice) (issueData ''n3wt0k'' 5000) (store [alice]))))
             = Inr ()"
    by (simp add: auth_eval)
  have u': "fst (updateOne offlineWorld (itemId alice) (issueData ''n3wt0k'' 5000) (store [alice])) = Inr ()"
    by (simp add: auth_eval)
  have s': "fst (sendToken offlineWorld (itemId alice) ''a@x.com'' ''n3wt0k''
                  (snd (updateOne offlineWorld (itemId alice) (issueData ''n3wt0k'' 5000) (store [alice]))))
             = Inl SendTokenFailed"
    by (simp add: auth_eval)
  note t0 = C3_protected_issue_outcomes [OF p, of calmWorld "''a@x.com''" "''n3wt0k''" 5000 "store []"]
  note t1 = C3_protected_issue_outcomes [OF p, of calmWorld "''a@x.com''" "''n3wt0k''" 5000 "store [alice]"]
  note t2 = C3_protected_issue_outcomes [OF p, of offlineWorld "''a@x.com''" "''n3wt0k''" 5000 "store [alice]"]
  have a: "sendItemPasswordResetLink specHelpers protectedConfig calmWorld ''a@x.com'' ''n3wt0k'' 5000
             (store []) = (Inr None, store [])"
    using t0 m0 by blast
  have b: "fst (sendItemPasswordResetLink specHelpers protectedConfig calmWorld ''a@x.com'' ''n3wt0k'' 5000
             (store [alice])) = Inr None"
    using t1 m1 u s by blast
  have c: "fst (sendItemPasswordResetLink specHelpers protectedConfig offlineWorld ''a@x.com'' ''n3wt0k''
             5000 (store [alice])) = Inl SendTokenFailed"
    using t2 m1 u' s' by blast
  show ?thesis using p m0 a m1 b c by blast
qed

section \<open>Password reset: what the resolvers return\<close>

text \<open>
  The statement that the send-link mutation returns \<^verbatim>\<open>null\<close> exactly when issuing
  succeeds fails under identity protection: for an identity that no item has,
  \<^verbatim>\<open>createAuthToken\<close> reports no success, and the resolver returns \<^verbatim>\<open>null\<close>.
\<close>

theorem C4_null_without_success_counterexample:
  "\<not> ((fst (sendItemPasswordResetLink specHelpers protectedConfig calmWorld ''nobody@x.com'' ''n3wt0k''
             5000 (store [alice])) = Inr None)
       = createSucceeded (createAuthToken specHelpers (identityField protectedConfig)
           (protectIdentities protectedConfig) ''nobody@x.com'' (items (store [alice])) ''n3wt0k''))"
  by (simp add: sendItemPasswordResetLink_def createSucceeded_def auth_eval)

lemma send_returns_error:
  "(fst (sendItemPasswordResetLink h cfg w identity entropy now st) = Inr (Some (c, m)))
     = (createAuthToken h (identityField cfg) (protectIdentities cfg) identity (items st) entropy
          = Inr (CreateFailure (Some c))
        \<and> m = getAuthTokenErrorMessage h (identityField cfg) (itemSingular cfg) (itemPlural cfg) c)"
proof (cases "createAuthToken h (identityField cfg) (protectIdentities cfg) identity (items st) entropy")
  case (Inl e)
  then show ?thesis by (simp add: send_not_created(1))
next
  case (Inr res)
  show ?thesis
  proof (cases res)
    case (CreateFailure co)
    then show ?thesis using Inr
      by (cases co) (auto simp: send_not_created errorResult_def)
  next
    case (CreateSuccess i t)
    then show ?thesis using Inr
      by (simp add: send_created split: sum.splits)
  qed
qed

lemma send_returns_null:
  "(fst (sendItemPasswordResetLink h cfg w identity entropy now st) = Inr None)
     = (createAuthToken h (identityField cfg) (protectIdentities cfg) identity (items st) entropy
          = Inr (CreateFailure None)
        \<or> (\<exists>i token.
              createAuthToken h (identityField cfg) (protectIdentities cfg) identity (items st) entropy
                = Inr (CreateSuccess i token)
            \<and> fst (updateOne w i (issueData token now) st) = Inr ()
            \<and> fst (sendToken w i identity token (snd (updateOne w i (issueData token now) st))) = Inr ()))"
proof (cases "createAuthToken h (identityField cfg) (protectIdentities cfg) identity (items st) entropy")
  case (Inl e)
  then show ?thesis by (simp add: send_not_created(1))
next
  case (Inr res)
  show ?thesis
  proof (cases res)
    case (CreateFailure co)
    then show ?thesis using Inr
      by (cases co) (auto simp: send_not_created errorResult_def)
  next
    case (CreateSuccess i t)
    then show ?thesis using Inr
      by (simp add: send_created split: sum.splits)
  qed
qed

lemma send_throws:
  "(fst (sendItemPasswordResetLink h cfg w identity entropy now st) = Inl e)
     = (createAuthToken h (identityField cfg) (protectIdentities cfg) identity (items st) entropy = Inl e
        \<or> (\<exists>i token.
              createAuthToken h (identityField cfg) (protectIdentities cfg) identity (items st) entropy
                = Inr (CreateSuccess i token)
            \<and> (fst (updateOne w i (issueData token now) st) = Inl e
               \<or> fst (updateOne w i (issueData token now) st) = Inr ()
                 \<and> fst (sendToken w i identity token (snd (updateOne w i (issueData token now) st)))
                     = Inl e)))"
proof (cases "createAuthToken h (identityField cfg) (protectIdentities cfg) identity (items st) entropy")
  case (Inl e')
  then show ?thesis by (auto simp: send_not_created(1))
next
  case (Inr res)
  show ?thesis
  proof (cases res)
    case (CreateFailure co)
    then show ?thesis using Inr
      by (cases co) (auto simp: send_not_created errorResult_def)
  next
    case (CreateSuccess i t)
    then show ?thesis using Inr
      by (simp add: send_created split: sum.splits)
  qed
qed

lemma validate_returns:
  "(fst (validateItemPasswordResetToken h cfg w identity token now st) = Inr None)
     = (\<exists>it. validateAuthToken h tokenType (identityField cfg) identity (protectIdentities cfg)
               (tokensValidForMins cfg) token (items st) now = Inr (ValidateSuccess it))"
  "(fst (validateItemPasswordResetToken h cfg w identity token now st) = Inr (Some (c, m)))
     = (validateAuthToken h tokenType (identityField cfg) identity (protectIdentities cfg)
          (tokensValidForMins cfg) token (items st) now = Inr (ValidateFailure c)
        \<and> m = getAuthTokenErrorMessage h (identityField cfg) (itemSingular cfg) (itemPlural cfg) c)"
  "(fst (validateItemPasswordResetToken h cfg w identity token now st) = Inl e)
     = (validateAuthToken h tokenType (identityField cfg) identity (protectIdentities cfg)
          (tokensValidForMins cfg) token (items st) now = Inl e)"
  by (auto simp: validateItemPasswordResetToken_def errorResult_def
           split: sum.splits validateResult.splits)

lemma redeem_returns_error:
  "(fst (redeemItemPasswordResetToken h cfg w identity token secret now st) = Inr (Some (c, m)))
     = (validateAuthToken h tokenType (identityField cfg) identity (protectIdentities cfg)
          (tokensValidForMins cfg) token (items st) now = Inr (ValidateFailure c)
        \<and> m = getAuthTokenErrorMessage h (identityField cfg) (itemSingular cfg) (itemPlural cfg) c)"
proof (cases "validateAuthToken h tokenType (identityField cfg) identity (protectIdentities cfg)
          (tokensValidForMins cfg) token (items st) now")
  case (Inl e)
  then show ?thesis by (simp add: redeem_not_validated(1))
next
  case (Inr res)
  show ?thesis
  proof (cases res)
    case (ValidateFailure c')
    then show ?thesis using Inr by (auto simp: redeem_not_validated(2) errorResult_def)
  next
    case (ValidateSuccess it)
    then show ?thesis using Inr by (simp add: redeem_validated split: sum.splits)
  qed
qed

lemma redeem_returns_null:
  "(fst (redeemItemPasswordResetToken h cfg w identity token secret now st) = Inr None)
     = (\<exists>it. validateAuthToken h tokenType (identityField cfg) identity (protectIdentities cfg)
               (tokensValidForMins cfg) token (items st) now = Inr (ValidateSuccess it)
            \<and> fst (updateOne w (itemId it) (redeemData now) st) = Inr ()
            \<and> fst (updateOne w (itemId it) (secretData cfg secret)
                     (snd (updateOne w (itemId it) (redeemData now) st))) = Inr ())"
proof (cases "validateAuthToken h tokenType (identityField cfg) identity (protectIdentities cfg)
          (tokensValidForMins cfg) token (items st) now")
  case (Inl e)
  then show ?thesis by (simp add: redeem_not_validated(1))
next
  case (Inr res)
  show ?thesis
  proof (cases res)
    case (ValidateFailure c')
    then show ?thesis using Inr by (auto simp: redeem_not_validated(2) errorResult_def)
  next
    case (ValidateSuccess it)
    then show ?thesis using Inr by (simp add: redeem_validated split: sum.splits)
  qed
qed

lemma redeem_throws:
  "(fst (redeemItemPasswordResetToken h cfg w identity token secret now st) = Inl e)
     = (validateAuthToken h tokenType (identityField cfg) identity (protectIdentities cfg)
          (tokensValidForMins cfg) token (items st) now = Inl e
        \<or> (\<exists>it. validateAuthToken h tokenType (identityField cfg) identity (protectIdentities cfg)
                  (tokensValidForMins cfg) token (items st) now = Inr (ValidateSuccess it)
              \<and> (fst (updateOne w (itemId it) (redeemData now) st) = Inl e
                 \<or> fst (updateOne w (itemId it) (redeemData now) st) = Inr ()
                   \<and> fst (updateOne w (itemId it) (secretData cfg secret)
                            (snd (updateOne w (itemId it) (redeemData now) st))) = Inl e)))"
proof (cases "validateAuthToken h tokenType (identityField cfg) identity (protectIdentities cfg)
          (tokensValidForMins cfg) token (items st) now")
  case (Inl e')
  then show ?thesis by (auto simp: redeem_not_validated(1))
next
  case (Inr res)
  show ?thesis
  proof (cases res)
    case (ValidateFailure c')
    then show ?thesis using Inr by (auto simp: redeem_not_validated(2) errorResult_def)
  next
    case (ValidateSuccess it)
    then show ?thesis using Inr by (simp add: redeem_validated split: sum.splits)
  qed
qed

text \<open>
  Claim C4, amended. Each resolver returns \<^verbatim>\<open>null\<close>, returns a code and message, or
  throws, and each outcome has exactly one cause.

  The send-link mutation returns a code and message exactly when \<^verbatim>\<open>createAuthToken\<close>
  fails with that code; it returns \<^verbatim>\<open>null\<close> exactly when \<^verbatim>\<open>createAuthToken\<close> fails
  without a code (as it does under identity protection) or succeeds and both the
  update and the delivery go through; it throws exactly when the helper's call is
  rejected or, after a successful creation, the update or the delivery throws.

  The validate query returns \<^verbatim>\<open>null\<close> exactly when \<^verbatim>\<open>validateAuthToken\<close> succeeds,
  a code and message exactly when it fails with that code, and throws exactly
  when the helper's call is rejected.

  The redeem mutation returns a code and message exactly when validation fails with
  that code; it returns \<^verbatim>\<open>null\<close> exactly when validation succeeds and both updates
  go through; it throws exactly when the helper's call is rejected or, after a
  successful validation, one of the two updates throws.

  So no failure that a helper reports is thrown.
\<close>

theorem C4_result_shapes:
  "(\<forall>c m. (fst (sendItemPasswordResetLink h cfg w identity entropy now st) = Inr (Some (c, m)))
       = (createAuthToken h (identityField cfg) (protectIdentities cfg) identity (items st) entropy
            = Inr (CreateFailure (Some c))
          \<and> m = getAuthTokenErrorMessage h (identityField cfg) (itemSingular cfg) (itemPlural cfg) c))
   \<and> ((fst (sendItemPasswordResetLink h cfg w identity entropy now st) = Inr None)
       = (createAuthToken h (identityField cfg) (protectIdentities cfg) identity (items st) entropy
            = Inr (CreateFailure None)
          \<or> (\<exists>i token'.
                createAuthToken h (identityField cfg) (protectIdentities cfg) identity (items st) entropy
                  = Inr (CreateSuccess i token')
              \<and> fst (updateOne w i (issueData token' now) st) = Inr ()
              \<and> fst (sendToken w i identity token' (snd (updateOne w i (issueData token' now) st)))
                  = Inr ())))
   \<and> (\<forall>e. (fst (sendItemPasswordResetLink h cfg w identity entropy now st) = Inl e)
       = (createAuthToken h (identityField cfg) (protectIdentities cfg) identity (items st) entropy = Inl e
          \<or> (\<exists>i token'.
                createAuthToken h (identityField cfg) (protectIdentities cfg) identity (items st) entropy
                  = Inr (CreateSuccess i token')
              \<and> (fst (updateOne w i (issueData token' now) st) = Inl e
                 \<or> fst (updateOne w i (issueData token' now) st) = Inr ()
                   \<and> fst (sendToken w i identity token' (snd (updateOne w i (issueData token' now) st)))
                       = Inl e))))
   \<and> ((fst (validateItemPasswordResetToken h cfg w identity token now st) = Inr None)
       = (\<exists>it. validateAuthToken h tokenType (identityField cfg) identity (protectIdentities cfg)
                 (tokensValidForMins cfg) token (items st) now = Inr (ValidateSuccess it)))
   \<and> (\<forall>c m. (fst (validateItemPasswordResetToken h cfg w identity token now st) = Inr (Some (c, m)))
       = (validateAuthToken h tokenType (identityField cfg) identity (protectIdentities cfg)
            (tokensValidForMins cfg) token (items st) now = Inr (ValidateFailure c)
          \<and> m = getAuthTokenErrorMessage h (identityField cfg) (itemSingular cfg) (itemPlural cfg) c))
   \<and> (\<forall>e. (fst (validateItemPasswordResetToken h cfg w identity token now st) = Inl e)
       = (validateAuthToken h tokenType (identityField cfg) identity (protectIdentities cfg)
            (tokensValidForMins cfg) token (items st) now = Inl e))
   \<and> (\<forall>c m. (fst (redeemItemPasswordResetToken h cfg w identity token secret now st) = Inr (Some (c, m)))
       = (validateAuthToken h tokenType (identityField cfg) identity (protectIdentities cfg)
            (tokensValidForMins cfg) token (items st) now = Inr (ValidateFailure c)
          \<and> m = getAuthTokenErrorMessage h (identityField cfg) (itemSingular cfg) (itemPlural cfg) c))
   \<and> ((fst (redeemItemPasswordResetToken h cfg w identity token secret now st) = Inr None)
       = (\<exists>it. validateAuthToken h tokenType (identityField cfg) identity (protectIdentities cfg)
                 (tokensValidForMins cfg) token (items st) now = Inr (ValidateSuccess it)
              \<and> fst (updateOne w (itemId it) (redeemData now) st) = Inr ()
              \<and> fst (updateOne w (itemId it) (secretData cfg secret)
                       (snd (updateOne w (itemId it) (redeemData now) st))) = Inr ()))
   \<and> (\<forall>e. (fst (redeemItemPasswordResetToken h cfg w identity token secret now st) = Inl e)
       = (validateAuthToken h tokenType (identityField cfg) identity (protectIdentities cfg)
            (tokensValidForMins cfg) token (items st) now = Inl e
          \<or> (\<exists>it. validateAuthToken h tokenType (identityField cfg) identity (protectIdentities cfg)
                    (tokensValidForMins cfg) token (items st) now = Inr (ValidateSuccess it)
                \<and> (fst (updateOne w (itemId it) (redeemData now) st) = Inl e
                   \<or> fst (updateOne w (itemId it) (redeemData now) st) = Inr ()
                     \<and> fst (updateOne w (itemId it) (secretData cfg secret)
                              (snd (updateOne w (itemId it) (redeemData now) st))) = Inl e))))"
  by (intro conjI allI)
     (rule send_returns_error send_returns_null send_throws validate_returns redeem_returns_error
        redeem_returns_null redeem_throws)+

theorem C4_result_shapes_witness:
  "fst (sendItemPasswordResetLink specHelpers protectedConfig calmWorld ''nobody@x.com'' ''n3wt0k'' 5000
          (store [alice])) = Inr None
   \<and> fst (sendItemPasswordResetLink specHelpers userConfig calmWorld ''nobody@x.com'' ''n3wt0k'' 5000
          (store [alice]))
       = Inr (Some (IDENTITY_NOT_FOUND,
                    getAuthTokenErrorMessage specHelpers (identityField userConfig)
                      (itemSingular userConfig) (itemPlural userConfig) IDENTITY_NOT_FOUND))
   \<and> fst (sendItemPasswordResetLink specHelpers userConfig offlineWorld ''a@x.com'' ''n3wt0k'' 5000
          (store [alice])) = Inl SendTokenFailed
   \<and> fst (validateItemPasswordResetToken specHelpers userConfig calmWorld ''a@x.com'' ''t0k3n'' 2000
          (store [aliceIssued])) = Inr None
   \<and> fst (validateItemPasswordResetToken failingHelpers userConfig calmWorld ''a@x.com'' ''t0k3n'' 2000
          (store [aliceIssued])) = Inl HelperFailed
   \<and> fst (redeemItemPasswordResetToken specHelpers userConfig calmWorld ''a@x.com'' ''t0k3n'' ''hunter2''
          2000 (store [aliceIssued])) = Inr None
   \<and> fst (redeemItemPasswordResetToken specHelpers userConfig strictWorld ''a@x.com'' ''t0k3n'' ''123''
          2000 (store [aliceIssued])) = Inl UpdateRejected"
proof -
  note t1 = C4_result_shapes [where h = specHelpers and cfg = protectedConfig and w = calmWorld
      and identity = "''nobody@x.com''" and entropy = "''n3wt0k''" and now = 5000 and st = "store [alice]", THEN conjunct2, THEN conjunct1]
  have c1: "createAuthToken specHelpers (identityField protectedConfig) (protectIdentities protectedConfig)
              ''nobody@x.com'' (items (store [alice])) ''n3wt0k'' = Inr (CreateFailure None)"
    by (simp add: auth_eval)
  have r1: "fst (sendItemPasswordResetLink specHelpers protectedConfig calmWorld ''nobody@x.com''
              ''n3wt0k'' 5000 (store [alice])) = Inr None"
    using t1 c1 by blast
  note t2 = C4_result_shapes [where h = specHelpers and cfg = userConfig and w = calmWorld
      and identity = "''nobody@x.com''" and entropy = "''n3wt0k''" and now = 5000 and st = "store [alice]", THEN conjunct1]
  have c2: "createAuthToken specHelpers (identityField userConfig) (protectIdentities userConfig)
              ''nobody@x.com'' (items (store [alice])) ''n3wt0k''
              = Inr (CreateFailure (Some IDENTITY_NOT_FOUND))"
    by (simp add: auth_eval)
  have r2: "fst (sendItemPasswordResetLink specHelpers userConfig calmWorld ''nobody@x.com'' ''n3wt0k''
              5000 (store [alice]))
       = Inr (Some (IDENTITY_NOT_FOUND,
                    getAuthTokenErrorMessage specHelpers (identityField userConfig)
                      (itemSingular userConfig) (itemPlural userConfig) IDENTITY_NOT_FOUND))"
    using t2 c2 by blast
  note t3 = C4_result_shapes [where h = specHelpers and cfg = userConfig and w = offlineWorld
      and identity = "''a@x.com''" and entropy = "''n3wt0k''" and now = 5000 and st = "store [alice]", THEN conjunct2, THEN conjunct2, THEN conjunct1]
  have c3: "createAuthToken specHelpers (identityField userConfig) (protectIdentities userConfig)
              ''a@x.com'' (items (store [alice])) ''n3wt0k'' = Inr (CreateSuccess 1 ''n3wt0k'')"
    by (simp add: auth_eval)
  have u3: "fst (updateOne offlineWorld 1 (issueData ''n3wt0k'' 5000) (store [alice])) = Inr ()"
    by (simp add: auth_eval)
  have s3: "fst (sendToken offlineWorld 1 ''a@x.com'' ''n3wt0k''
                  (snd (updateOne offlineWorld 1 (issueData ''n3wt0k'' 5000) (store [alice]))))
              = Inl SendTokenFailed"
    by (simp add: auth_eval)
  have r3: "fst (sendItemPasswordResetLink specHelpers userConfig offlineWorld ''a@x.com'' ''n3wt0k'' 5000
              (store [alice])) = Inl SendTokenFailed"
    using t3 c3 u3 s3 by blast
  note t4 = C4_result_shapes [where h = specHelpers and cfg = userConfig and w = calmWorld
      and identity = "''a@x.com''" and token = "''t0k3n''" and secret = "''hunter2''" and now = 2000
      and st = "store [aliceIssued]", THEN conjunct2, THEN conjunct2, THEN conjunct2, THEN conjunct1]
  note t6 = C4_result_shapes [where h = specHelpers and cfg = userConfig and w = calmWorld
      and identity = "''a@x.com''" and token = "''t0k3n''" and secret = "''hunter2''" and now = 2000
      and st = "store [aliceIssued]", THEN conjunct2, THEN conjunct2, THEN conjunct2, THEN conjunct2, THEN conjunct2, THEN conjunct2, THEN conjunct2, THEN conjunct1]
  have u4: "fst (updateOne calmWorld (itemId aliceIssued) (redeemData 2000) (store [aliceIssued])) = Inr ()"
    by (simp add: auth_eval)
  have w4: "fst (updateOne calmWorld (itemId aliceIssued) (secretData userConfig ''hunter2'')
                  (snd (updateOne calmWorld (itemId aliceIssued) (redeemData 2000) (store [aliceIssued]))))
              = Inr ()"
    by (simp add: auth_eval)
  have r4: "fst (validateItemPasswordResetToken specHelpers userConfig calmWorld ''a@x.com'' ''t0k3n'' 2000
              (store [aliceIssued])) = Inr None"
    using t4 validate_issued_eval by blast
  have r6: "fst (redeemItemPasswordResetToken specHelpers userConfig calmWorld ''a@x.com'' ''t0k3n''
              ''hunter2'' 2000 (store [aliceIssued])) = Inr None"
    using t6 validate_issued_eval u4 w4 by blast
  note t5 = C4_result_shapes [where h = failingHelpers and cfg = userConfig and w = calmWorld
      and identity = "''a@x.com''" and token = "''t0k3n''" and now = 2000 and st = "store [aliceIssued]", THEN conjunct2, THEN conjunct2, THEN conjunct2, THEN conjunct2, THEN conjunct2, THEN conjunct1]
  have v5: "validateAuthToken failingHelpers tokenType (identityField userConfig) ''a@x.com''
              (protectIdentities userConfig) (tokensValidForMins userConfig) ''t0k3n''
              (items (store [aliceIssued])) 2000 = Inl HelperFailed"
    by (simp add: auth_eval)
  have r5: "fst (validateItemPasswordResetToken failingHelpers userConfig calmWorld ''a@x.com'' ''t0k3n''
              2000 (store [aliceIssued])) = Inl HelperFailed"
    using t5 v5 by blast
  note t7 = C4_result_shapes [where h = specHelpers and cfg = userConfig and w = strictWorld
      and identity = "''a@x.com''" and token = "''t0k3n''" and secret = "''123''" and now = 2000
      and st = "store [aliceIssued]", THEN conjunct2, THEN conjunct2, THEN conjunct2, THEN conjunct2, THEN conjunct2, THEN conjunct2, THEN conjunct2, THEN conjunct2]
  have u7: "fst (updateOne strictWorld (itemId aliceIssued) (redeemData 2000) (store [aliceIssued])) = Inr ()"
    by (simp add: auth_eval redeemData_def)
  have w7: "fst (updateOne strictWorld (itemId aliceIssued) (secretData userConfig ''123'')
                  (snd (updateOne strictWorld (itemId aliceIssued) (redeemData 2000) (store [aliceIssued]))))
              = Inl UpdateRejected"
    by (simp add: auth_eval secretData_def redeemData_def)
  have r7: "fst (redeemItemPasswordResetToken specHelpers userConfig strictWorld ''a@x.com'' ''t0k3n''
              ''123'' 2000 (store [aliceIssued])) = Inl UpdateRejected"
    using t7 validate_issued_eval u7 w7 by blast
  show ?thesis using r1 r2 r3 r4 r5 r6 r7 by simp
qed

section \<open>Password reset: expiry\<close>




section \<open>Admin UI: the target directory is removed first\<close>

lemma targets_append: "targets (xs @ ys) = targets xs @ targets ys"
  by (induction xs rule: targets.induct) simp_all

lemma writes_same: "st' = st \<Longrightarrow> \<exists>ops. writesBetween st st' ops"
  by (rule exI[of _ "[]"]) simp

lemma writes_trans:
  assumes "writesBetween a b ops1" and "writesBetween b c ops2"
  shows "writesBetween a c (ops1 @ ops2)"
  using assms by (simp add: targets_append)

lemma writes_then:
  assumes "\<exists>ops. writesBetween a b ops" and "\<exists>ops. writesBetween b c ops"
  shows "\<exists>ops. writesBetween a c ops"
proof -
  obtain ops1 where x: "writesBetween a b ops1" using assms(1) by blast
  obtain ops2 where y: "writesBetween b c ops2" using assms(2) by blast
  show ?thesis by (rule exI[of _ "ops1 @ ops2"]) (rule writes_trans[OF x y])
qed

lemma writes_outputFile: "\<exists>ops. writesBetween st (fs_outputFile wd p body st) ops"
  by (rule exI[of _ "[OutputFile (resolvePath wd p) body]"]) (simp add: fs_outputFile_def)

lemma writes_copyFile: "\<exists>ops. writesBetween st (snd (fs_copyFile wd src dest st)) ops"
proof (cases "files st (resolvePath wd src)")
  case None
  then have "snd (fs_copyFile wd src dest st) = st" by (simp add: fs_copyFile_def)
  then show ?thesis by (rule writes_same)
next
  case (Some body)
  show ?thesis
    by (rule exI[of _ "[CopyFile (resolvePath wd src) (resolvePath wd dest) body]"])
       (simp add: fs_copyFile_def Some)
qed

lemma writes_writeAdminFile:
  "\<exists>ops. writesBetween st (snd (writeAdminFile env f projectAdminPath st)) ops"
proof (cases f)
  case (WriteMode src out)
  show ?thesis
  proof (cases "formatSource env src")
    case None
    then have "snd (writeAdminFile env f projectAdminPath st) = st"
      using WriteMode by (simp add: writeAdminFile_def Let_def)
    then show ?thesis by (rule writes_same)
  next
    case (Some body)
    then have eq: "snd (writeAdminFile env f projectAdminPath st)
                 = fs_outputFile (cwd env) (Path_join [projectAdminPath, out]) body st"
      using WriteMode by (simp add: writeAdminFile_def Let_def)
    show ?thesis unfolding eq by (rule writes_outputFile)
  qed
next
  case (CopyMode inputPath out)
  show ?thesis
  proof (cases "Path_isAbsolute inputPath")
    case False
    then have "snd (writeAdminFile env f projectAdminPath st) = st"
      using CopyMode by (simp add: writeAdminFile_def Let_def)
    then show ?thesis by (rule writes_same)
  next
    case True
    then have eq: "snd (writeAdminFile env f projectAdminPath st)
                 = snd (fs_copyFile (cwd env) inputPath (Path_join [projectAdminPath, out]) st)"
      using CopyMode by (simp add: writeAdminFile_def Let_def split: prod.splits sum.splits)
    show ?thesis unfolding eq by (rule writes_copyFile)
  qed
qed

lemma writes_writeAll:
  "\<exists>ops. writesBetween st (snd (writeAll env fs projectAdminPath st)) ops"
proof (induction fs arbitrary: st)
  case Nil
  show ?case by (rule writes_same) simp
next
  case (Cons f rest)
  let ?st1 = "snd (writeAdminFile env f projectAdminPath st)"
  have eq: "snd (writeAll env (f # rest) projectAdminPath st)
          = snd (writeAll env rest projectAdminPath ?st1)"
    by (simp split: prod.splits)
  show ?case unfolding eq
    by (rule writes_then[OF writes_writeAdminFile Cons.IH])
qed

lemma writes_userPages:
  "\<exists>ops. writesBetween st (fold (writeUserPage env projectAdminPath) names st) ops"
proof (induction names arbitrary: st)
  case Nil
  show ?case by (rule writes_same) simp
next
  case (Cons n names)
  let ?st1 = "writeUserPage env projectAdminPath n st"
  have a: "\<exists>ops. writesBetween st ?st1 ops"
    unfolding writeUserPage_def Let_def by (rule writes_outputFile)
  have eq: "fold (writeUserPage env projectAdminPath) (n # names) st
          = fold (writeUserPage env projectAdminPath) names ?st1"
    by simp
  show ?case unfolding eq by (rule writes_then[OF a Cons.IH])
qed


lemma writes_generateAdminUI:
  "\<exists>ops. writesBetween (fs_remove (cwd env) projectAdminPath st)
            (snd (generateAdminUI env userPages projectAdminPath st)) ops"
proof -
  let ?st0 = "fs_remove (cwd env) projectAdminPath st"
  let ?r1 = "writeAll env (concat userPages) projectAdminPath ?st0"
  let ?st1 = "snd ?r1"
  have a: "\<exists>ops. writesBetween ?st0 ?st1 ops"
    by (rule writes_writeAll)
  show ?thesis
  proof (cases "firstError (fst ?r1)")
    case (Some e)
    then have eq: "snd (generateAdminUI env userPages projectAdminPath st) = ?st1"
      by (simp add: generateAdminUI_def Let_def case_prod_beta)
    show ?thesis unfolding eq by (rule a)
  next
    case None
    note fe = None
    show ?thesis
    proof (cases "getDoesAdminConfigExist env")
      case (Inl e)
      then have eq: "snd (generateAdminUI env userPages projectAdminPath st) = ?st1"
        using fe by (simp add: generateAdminUI_def Let_def case_prod_beta)
      show ?thesis unfolding eq by (rule a)
    next
      case (Inr b)
      let ?fs2 = "filter (\<lambda>x. Path_normalize (outputPath x) \<notin> set (fulfilled (fst ?r1)))
                    (writeAdminFiles env b projectAdminPath)"
      let ?r2 = "writeAll env ?fs2 projectAdminPath ?st1"
      let ?st2 = "snd ?r2"
      have ab: "\<exists>ops. writesBetween ?st0 ?st2 ops"
        by (rule writes_then[OF a writes_writeAll])
      show ?thesis
      proof (cases "firstError (fst ?r2)")
        case (Some e)
        then have eq: "snd (generateAdminUI env userPages projectAdminPath st) = ?st2"
          using fe Inr by (simp add: generateAdminUI_def Let_def case_prod_beta)
        show ?thesis unfolding eq by (rule ab)
      next
        case None
        let ?st3 = "fold (writeUserPage env projectAdminPath) (userPagesGlob env) ?st2"
        have eq: "snd (generateAdminUI env userPages projectAdminPath st) = ?st3"
          using fe Inr None by (simp add: generateAdminUI_def Let_def case_prod_beta)
        show ?thesis unfolding eq by (rule writes_then[OF ab writes_userPages])
      qed
    qed
  qed
qed

lemma demo_stale_log:
  "fsLog (snd (generateAdminUI demoEnv [[WriteMode userHome ''pages/index.js'']]
                 ''/app/.keystone/admin'' staleDisk))
     = [Remove [''app'', ''.keystone'', ''admin''],
        OutputFile [''app'', ''.keystone'', ''admin'', ''pages'', ''index.js''] userHome,
        OutputFile [''app'', ''.keystone'', ''admin'', ''pages'', ''index.js''] builtinHome,
        OutputFile [''app'', ''.keystone'', ''admin'', ''pages'', ''_app.js''] builtinApp]"
  by code_simp

lemma demo_dir: "resolvePath (cwd demoEnv) ''/app/.keystone/admin'' = [''app'', ''.keystone'', ''admin'']"
  by code_simp

text \<open>
  Claim C9. Every call of \<^verbatim>\<open>generateAdminUI\<close>, whether it returns or throws, first
  removes the target directory: the first file-system operation of the call is the
  removal of \<^verbatim>\<open>projectAdminPath\<close>, every later operation writes a file, and a file
  under the target directory that none of these operations writes does not exist
  afterwards, whatever the directory held before.
\<close>

theorem C9_target_directory_removed_first:
  "\<exists>ops. fsLog (snd (generateAdminUI env userPages projectAdminPath st))
            = fsLog st @ Remove (resolvePath (cwd env) projectAdminPath) # ops
        \<and> list_all isWrite ops
        \<and> (\<forall>k. within (resolvePath (cwd env) projectAdminPath) k \<and> k \<notin> set (targets ops)
              \<longrightarrow> files (snd (generateAdminUI env userPages projectAdminPath st)) k = None)"
proof -
  obtain ops where w: "writesBetween (fs_remove (cwd env) projectAdminPath st)
            (snd (generateAdminUI env userPages projectAdminPath st)) ops"
    using writes_generateAdminUI by blast
  have l: "fsLog (snd (generateAdminUI env userPages projectAdminPath st))
            = fsLog st @ Remove (resolvePath (cwd env) projectAdminPath) # ops"
    using w by (simp add: fs_remove_def)
  have i: "list_all isWrite ops" using w by simp
  have g: "\<forall>k. within (resolvePath (cwd env) projectAdminPath) k \<and> k \<notin> set (targets ops)
              \<longrightarrow> files (snd (generateAdminUI env userPages projectAdminPath st)) k = None"
    using w by (simp add: fs_remove_def)
  from l i g show ?thesis by blast
qed

theorem C9_target_directory_removed_first_witness:
  "within (resolvePath (cwd demoEnv) ''/app/.keystone/admin'')
      [''app'', ''.keystone'', ''admin'', ''pages'', ''old.js'']
   \<and> files staleDisk [''app'', ''.keystone'', ''admin'', ''pages'', ''old.js''] = Some ''stale''
   \<and> files (snd (generateAdminUI demoEnv [[WriteMode userHome ''pages/index.js'']]
                  ''/app/.keystone/admin'' staleDisk))
        [''app'', ''.keystone'', ''admin'', ''pages'', ''old.js''] = None"
proof -
  let ?X = "snd (generateAdminUI demoEnv [[WriteMode userHome ''pages/index.js'']]
                  ''/app/.keystone/admin'' staleDisk)"
  let ?k = "[''app'', ''.keystone'', ''admin'', ''pages'', ''old.js'']"
  obtain ops where l: "fsLog ?X = fsLog staleDisk @ Remove (resolvePath (cwd demoEnv) ''/app/.keystone/admin'') # ops"
    and g: "\<forall>k. within (resolvePath (cwd demoEnv) ''/app/.keystone/admin'') k \<and> k \<notin> set (targets ops)
              \<longrightarrow> files ?X k = None"
    using C9_target_directory_removed_first
            [of demoEnv "[[WriteMode userHome ''pages/index.js'']]" "''/app/.keystone/admin''" staleDisk]
    by blast
  have ops: "ops = [OutputFile [''app'', ''.keystone'', ''admin'', ''pages'', ''index.js''] userHome,
        OutputFile [''app'', ''.keystone'', ''admin'', ''pages'', ''index.js''] builtinHome,
        OutputFile [''app'', ''.keystone'', ''admin'', ''pages'', ''_app.js''] builtinApp]"
    using l unfolding demo_stale_log by (simp add: staleDisk_def)
  have w: "within (resolvePath (cwd demoEnv) ''/app/.keystone/admin'') ?k"
    unfolding demo_dir by (simp add: within_def)
  have n: "?k \<notin> set (targets ops)" unfolding ops by simp
  have s: "files staleDisk ?k = Some ''stale''" by (simp add: staleDisk_def)
  have "files ?X ?k = None" using g w n by blast
  then show ?thesis using w s by blast
qed

section \<open>Admin UI: a framework file over a user's file\<close>

text \<open>
  With the target directory \<^verbatim>\<open>.\<close>, where joining changes nothing, the filter does
  what its comment says: the framework's \<^verbatim>\<open>pages/index.js\<close> is left out.
\<close>

lemma framework_file_skipped_in_working_directory:
  "fsLog (snd (generateAdminUI demoEnv [[WriteMode userHome ''pages/index.js'']] ''.'' emptyDisk))
     = [Remove [''app''],
        OutputFile [''app'', ''pages'', ''index.js''] userHome,
        OutputFile [''app'', ''pages'', ''_app.js''] builtinApp]"
  by code_simp

lemma admin_paths:
  "Path_join [''/app/.keystone/admin'', ''pages/index.js''] = ''/app/.keystone/admin/pages/index.js''"
  "Path_normalize ''/app/.keystone/admin/pages/index.js'' = ''/app/.keystone/admin/pages/index.js''"
  "Path_normalize ''pages/index.js'' = ''pages/index.js''"
  "resolvePath ''/app'' ''/app/.keystone/admin/pages/index.js''
     = [''app'', ''.keystone'', ''admin'', ''pages'', ''index.js'']"
  "resolvePath ''/app'' ''/app/.keystone/admin'' = [''app'', ''.keystone'', ''admin'']"
  by code_simp+

text \<open>
  Claim C8 says that a framework file whose output path is the output path of a
  file the user supplied is skipped. The generator compares the normalised output
  path of the framework file with the paths \<^verbatim>\<open>writeAdminFile\<close> returned for the
  user's files, and those are joined to \<^verbatim>\<open>projectAdminPath\<close>. In a project in
  \<^verbatim>\<open>/app\<close> with the target directory \<^verbatim>\<open>/app/.keystone/admin\<close>, for any user's file
  \<^verbatim>\<open>pages/index.js\<close> and any framework file \<^verbatim>\<open>pages/index.js\<close> whose sources
  \<^verbatim>\<open>prettier\<close> formats, the framework's file is not skipped: the call returns, the
  framework's text is written after the user's text to the same file, and the
  user's text is lost.
\<close>

theorem C8_framework_file_overwrites_user_file:
  assumes "cwd env = ''/app''"
    and "prettierFormat env userSrc = Some userText"
    and "prettierFormat env builtinSrc = Some builtinText"
    and "adminConfigResolve env \<noteq> OtherResolveError"
    and "\<forall>configFileExists. writeAdminFiles env configFileExists ''/app/.keystone/admin''
           = [WriteMode builtinSrc ''pages/index.js'']"
    and "userPagesGlob env = []"
  shows "outputPath (WriteMode userSrc ''pages/index.js'') = outputPath (WriteMode builtinSrc ''pages/index.js'')
       \<and> fst (generateAdminUI env [[WriteMode userSrc ''pages/index.js'']] ''/app/.keystone/admin'' st)
           = Inr ()
       \<and> fsLog (snd (generateAdminUI env [[WriteMode userSrc ''pages/index.js'']] ''/app/.keystone/admin'' st))
           = fsLog st @
               [Remove [''app'', ''.keystone'', ''admin''],
                OutputFile [''app'', ''.keystone'', ''admin'', ''pages'', ''index.js''] userText,
                OutputFile [''app'', ''.keystone'', ''admin'', ''pages'', ''index.js''] builtinText]
       \<and> files (snd (generateAdminUI env [[WriteMode userSrc ''pages/index.js'']] ''/app/.keystone/admin'' st))
           [''app'', ''.keystone'', ''admin'', ''pages'', ''index.js''] = Some builtinText"
proof -
  let ?p = "''/app/.keystone/admin''"
  let ?k = "[''app'', ''.keystone'', ''admin'', ''pages'', ''index.js'']"
  let ?st0 = "fs_remove (cwd env) ?p st"
  let ?st1 = "fs_outputFile (cwd env) ''/app/.keystone/admin/pages/index.js'' userText ?st0"
  let ?st2 = "fs_outputFile (cwd env) ''/app/.keystone/admin/pages/index.js'' builtinText ?st1"
  have w1: "writeAdminFile env (WriteMode userSrc ''pages/index.js'') ?p ?st0
              = (Inr ''/app/.keystone/admin/pages/index.js'', ?st1)"
    by (simp add: writeAdminFile_def formatSource_def assms(2) admin_paths Let_def)
  have w2: "writeAdminFile env (WriteMode builtinSrc ''pages/index.js'') ?p ?st1
              = (Inr ''/app/.keystone/admin/pages/index.js'', ?st2)"
    by (simp add: writeAdminFile_def formatSource_def assms(3) admin_paths Let_def)
  have "\<exists>b. getDoesAdminConfigExist env = Inr b"
    using assms(4) by (cases "adminConfigResolve env") (auto simp add: getDoesAdminConfigExist_def)
  then obtain b where g: "getDoesAdminConfigExist env = Inr b" ..
  have fs: "writeAdminFiles env b ?p = [WriteMode builtinSrc ''pages/index.js'']"
    using assms(5) by simp
  have run: "generateAdminUI env [[WriteMode userSrc ''pages/index.js'']] ?p st = (Inr (), ?st2)"
    by (simp add: generateAdminUI_def w1 g fs w2 assms(6) admin_paths Let_def)
  show ?thesis
    unfolding run
    by (simp add: fs_outputFile_def fs_remove_def assms(1) admin_paths)
qed

theorem C8_framework_file_overwrites_user_file_witness:
  "cwd homeOnlyEnv = ''/app''
   \<and> prettierFormat homeOnlyEnv userHome = Some userHome
   \<and> prettierFormat homeOnlyEnv builtinHome = Some builtinHome
   \<and> fst (generateAdminUI homeOnlyEnv [[WriteMode userHome ''pages/index.js'']] ''/app/.keystone/admin''
            emptyDisk) = Inr ()
   \<and> fsLog (snd (generateAdminUI homeOnlyEnv [[WriteMode userHome ''pages/index.js'']]
                   ''/app/.keystone/admin'' emptyDisk))
       = fsLog emptyDisk @
           [Remove [''app'', ''.keystone'', ''admin''],
            OutputFile [''app'', ''.keystone'', ''admin'', ''pages'', ''index.js''] userHome,
            OutputFile [''app'', ''.keystone'', ''admin'', ''pages'', ''index.js''] builtinHome]
   \<and> files (snd (generateAdminUI homeOnlyEnv [[WriteMode userHome ''pages/index.js'']]
                   ''/app/.keystone/admin'' emptyDisk))
        [''app'', ''.keystone'', ''admin'', ''pages'', ''index.js''] = Some builtinHome"
proof -
  have a1: "cwd homeOnlyEnv = ''/app''"
    by (simp add: homeOnlyEnv_def demoEnv_def)
  have a2: "prettierFormat homeOnlyEnv userHome = Some userHome"
    by (simp add: homeOnlyEnv_def demoEnv_def)
  have a3: "prettierFormat homeOnlyEnv builtinHome = Some builtinHome"
    by (simp add: homeOnlyEnv_def demoEnv_def)
  have a4: "adminConfigResolve homeOnlyEnv \<noteq> OtherResolveError"
    by (simp add: homeOnlyEnv_def demoEnv_def)
  have a5: "\<forall>configFileExists. writeAdminFiles homeOnlyEnv configFileExists ''/app/.keystone/admin''
              = [WriteMode builtinHome ''pages/index.js'']"
    by (simp add: homeOnlyEnv_def demoEnv_def)
  have a6: "userPagesGlob homeOnlyEnv = []"
    by (simp add: homeOnlyEnv_def demoEnv_def)
  show ?thesis
    using a1 a2 a3 C8_framework_file_overwrites_user_file [OF a1 a2 a3 a4 a5 a6, of emptyDisk]
    by blast
qed


section \<open>Pipeline: a failed validation stops the operation\<close>

lemma newEvents_logged: "newEvents st (logged evs st) = evs"
  by (simp add: newEvents_def logged_def)

lemma logged_rows: "rows (logged evs st) = rows st" "events (logged evs st) = events st @ evs"
  by (simp_all add: logged_def)

lemma validationStage_result:
  assumes "rs = invokeAll (\<lambda>f. sel (hooksOf f)) fs args"
    and "l = map_option (\<lambda>h. h args) lh"
  shows "noneThrew rs l \<Longrightarrow> snd (validationStage name sel hooksOf fs lh args) = Inr (recorded rs l)"
    and "\<not> noneThrew rs l \<Longrightarrow> \<exists>e. snd (validationStage name sel hooksOf fs lh args) = Inl e"
  using assms
  by (auto simp: validationStage_def noneThrew_def recorded_def Let_def
           split: option.splits sum.splits)

lemma validationStage_events:
  assumes "name = ValidateInput \<or> name = ValidateDelete"
  shows "list_all (\<lambda>e. \<not> pastValidation e) (fst (validationStage name sel hooksOf fs lh args))"
  using assms
  by (auto simp: validationStage_def Let_def list_all_iff split: option.splits sum.splits)

lemma resolveStages_events:
  "list_all (\<lambda>e. \<not> pastValidation e) (fst (resolveStages cfg op input existing))"
  by (auto simp: resolveStages_def Let_def list_all_iff split: option.splits sum.splits)

lemma changeItem_invalid:
  assumes "resolveStages cfg op input existing = (evs1, Inr rd)"
    and "validationStage ValidateInput validateInput fieldHooks (listFields cfg)
           (validateInput (listHooks cfg)) (argsOf op input existing rd) = (evs2, v)"
    and "v = Inl e \<or> (v = Inr msgs \<and> msgs \<noteq> [])"
  shows "changeItem cfg op input existing st
           = (Inl (case v of Inl e \<Rightarrow> HookFailure e | Inr msgs \<Rightarrow> ValidationFailureError msgs),
              logged (evs1 @ evs2) st)"
  using assms by (auto simp: changeItem_def Let_def)

lemma deleteItem_invalid:
  assumes "withId i (rows st) = old # others"
    and "deleteAccess cfg old"
    and "validationStage ValidateDelete validateDelete fieldHooks (listFields cfg)
           (validateDelete (listHooks cfg)) (argsOf Delete (\<lambda>k. None) (Some old) (\<lambda>k. None)) = (evs2, v)"
    and "v = Inl e \<or> (v = Inr msgs \<and> msgs \<noteq> [])"
  shows "deleteItem cfg i st
           = (Inl (case v of Inl e \<Rightarrow> HookFailure e | Inr msgs \<Rightarrow> ValidationFailureError msgs),
              logged evs2 st)"
  using assms by (auto simp: deleteItem_def Let_def)


lemma change_aborts:
  assumes r: "resolveStages cfg op input existing = (evs1, Inr rd)"
    and rs: "rs = invokeAll (\<lambda>f. validateInput (fieldHooks f)) (listFields cfg)
                    (argsOf op input existing rd)"
    and l: "l = map_option (\<lambda>h. h (argsOf op input existing rd)) (validateInput (listHooks cfg))"
    and bad: "recorded rs l \<noteq> [] \<or> \<not> noneThrew rs l"
  shows "(\<exists>f. fst (changeItem cfg op input existing st) = Inl f)
       \<and> (noneThrew rs l \<longrightarrow>
            fst (changeItem cfg op input existing st) = Inl (ValidationFailureError (recorded rs l)))
       \<and> rows (snd (changeItem cfg op input existing st)) = rows st
       \<and> events (snd (changeItem cfg op input existing st))
            = events st @ newEvents st (snd (changeItem cfg op input existing st))
       \<and> list_all (\<lambda>e. \<not> pastValidation e) (newEvents st (snd (changeItem cfg op input existing st)))"
proof -
  let ?V = "validationStage ValidateInput validateInput fieldHooks (listFields cfg)
              (validateInput (listHooks cfg)) (argsOf op input existing rd)"
  have v: "?V = (fst ?V, snd ?V)" by simp
  have e1: "list_all (\<lambda>e. \<not> pastValidation e) evs1"
    using resolveStages_events[of cfg op input existing] r by simp
  have e2: "list_all (\<lambda>e. \<not> pastValidation e) (fst ?V)"
    by (rule validationStage_events) simp
  have c: "snd ?V = Inr (recorded rs l) \<and> recorded rs l \<noteq> [] \<and> noneThrew rs l
           \<or> (\<exists>e. snd ?V = Inl e) \<and> \<not> noneThrew rs l"
    using bad validationStage_result[OF rs l, of ValidateInput] by (cases "noneThrew rs l") auto
  then have ch: "changeItem cfg op input existing st
           = (Inl (case snd ?V of Inl e \<Rightarrow> HookFailure e | Inr msgs \<Rightarrow> ValidationFailureError msgs),
              logged (evs1 @ fst ?V) st)"
    using changeItem_invalid[OF r v] by blast
  show ?thesis
    unfolding ch using c e1 e2 by (auto simp: newEvents_logged logged_rows)
qed

lemma delete_aborts:
  assumes w: "withId i (rows st) = old # others"
    and a: "deleteAccess cfg old"
    and rs: "rs = invokeAll (\<lambda>f. validateDelete (fieldHooks f)) (listFields cfg)
                    (argsOf Delete (\<lambda>k. None) (Some old) (\<lambda>k. None))"
    and l: "l = map_option (\<lambda>h. h (argsOf Delete (\<lambda>k. None) (Some old) (\<lambda>k. None)))
                  (validateDelete (listHooks cfg))"
    and bad: "recorded rs l \<noteq> [] \<or> \<not> noneThrew rs l"
  shows "(\<exists>f. fst (deleteItem cfg i st) = Inl f)
       \<and> (noneThrew rs l \<longrightarrow> fst (deleteItem cfg i st) = Inl (ValidationFailureError (recorded rs l)))
       \<and> rows (snd (deleteItem cfg i st)) = rows st
       \<and> events (snd (deleteItem cfg i st)) = events st @ newEvents st (snd (deleteItem cfg i st))
       \<and> list_all (\<lambda>e. \<not> pastValidation e) (newEvents st (snd (deleteItem cfg i st)))"
proof -
  let ?V = "validationStage ValidateDelete validateDelete fieldHooks (listFields cfg)
              (validateDelete (listHooks cfg)) (argsOf Delete (\<lambda>k. None) (Some old) (\<lambda>k. None))"
  have v: "?V = (fst ?V, snd ?V)" by simp
  have e2: "list_all (\<lambda>e. \<not> pastValidation e) (fst ?V)"
    by (rule validationStage_events) simp
  have c: "snd ?V = Inr (recorded rs l) \<and> recorded rs l \<noteq> [] \<and> noneThrew rs l
           \<or> (\<exists>e. snd ?V = Inl e) \<and> \<not> noneThrew rs l"
    using bad validationStage_result[OF rs l, of ValidateDelete] by (cases "noneThrew rs l") auto
  then have ch: "deleteItem cfg i st
           = (Inl (case snd ?V of Inl e \<Rightarrow> HookFailure e | Inr msgs \<Rightarrow> ValidationFailureError msgs),
              logged (fst ?V) st)"
    using deleteItem_invalid[OF w a v] by blast
  show ?thesis
    unfolding ch using c e2 by (auto simp: newEvents_logged logged_rows)
qed

lemmas pipe_eval =
  testList_def textField_def noHooks_def emptyList_def oneRow_def resolveStages_def fieldStage_def
  argsOf_def recorded_def noneThrew_def nonNull_def withId_def Let_def

lemma demo_resolve:
  "\<exists>evs1 rd. resolveStages testList Create [''name'' \<mapsto> VStr ''test entry''] None = (evs1, Inr rd)
      \<and> rd ''testField'' = None"
  by (simp add: pipe_eval)

text \<open>
  Claim C7. In a create or update whose resolver stages completed, and in a delete
  that passed access control: when the validation hooks of the fields and of the
  list record at least one message (or one of them throws), the operation fails,
  the stored items are as they were, and the run invokes no before- or after-hook
  and makes no write to storage. When every validation hook completed, the failure
  is a \<open>ValidationFailureError\<close> that carries all the messages recorded, those of
  the fields first.
\<close>

theorem C7_validation_failure_aborts:
  "(resolveStages cfg op input existing = (evs, Inr rd)
      \<and> rs = invokeAll (\<lambda>f. validateInput (fieldHooks f)) (listFields cfg)
                (argsOf op input existing rd)
      \<and> l = map_option (\<lambda>h. h (argsOf op input existing rd)) (validateInput (listHooks cfg))
      \<and> (recorded rs l \<noteq> [] \<or> \<not> noneThrew rs l)
    \<longrightarrow> (\<exists>f. fst (changeItem cfg op input existing st) = Inl f)
        \<and> (noneThrew rs l \<longrightarrow>
             fst (changeItem cfg op input existing st) = Inl (ValidationFailureError (recorded rs l)))
        \<and> rows (snd (changeItem cfg op input existing st)) = rows st
        \<and> events (snd (changeItem cfg op input existing st))
             = events st @ newEvents st (snd (changeItem cfg op input existing st))
        \<and> list_all (\<lambda>e. \<not> pastValidation e)
             (newEvents st (snd (changeItem cfg op input existing st))))
   \<and> (withId i (rows st) = old # others
      \<and> deleteAccess cfg old
      \<and> rs' = invokeAll (\<lambda>f. validateDelete (fieldHooks f)) (listFields cfg)
                (argsOf Delete (\<lambda>k. None) (Some old) (\<lambda>k. None))
      \<and> l' = map_option (\<lambda>h. h (argsOf Delete (\<lambda>k. None) (Some old) (\<lambda>k. None)))
                (validateDelete (listHooks cfg))
      \<and> (recorded rs' l' \<noteq> [] \<or> \<not> noneThrew rs' l')
    \<longrightarrow> (\<exists>f. fst (deleteItem cfg i st) = Inl f)
        \<and> (noneThrew rs' l' \<longrightarrow>
             fst (deleteItem cfg i st) = Inl (ValidationFailureError (recorded rs' l')))
        \<and> rows (snd (deleteItem cfg i st)) = rows st
        \<and> events (snd (deleteItem cfg i st)) = events st @ newEvents st (snd (deleteItem cfg i st))
        \<and> list_all (\<lambda>e. \<not> pastValidation e) (newEvents st (snd (deleteItem cfg i st))))"
proof (rule conjI)
  show "resolveStages cfg op input existing = (evs, Inr rd)
      \<and> rs = invokeAll (\<lambda>f. validateInput (fieldHooks f)) (listFields cfg)
                (argsOf op input existing rd)
      \<and> l = map_option (\<lambda>h. h (argsOf op input existing rd)) (validateInput (listHooks cfg))
      \<and> (recorded rs l \<noteq> [] \<or> \<not> noneThrew rs l)
    \<longrightarrow> (\<exists>f. fst (changeItem cfg op input existing st) = Inl f)
        \<and> (noneThrew rs l \<longrightarrow>
             fst (changeItem cfg op input existing st) = Inl (ValidationFailureError (recorded rs l)))
        \<and> rows (snd (changeItem cfg op input existing st)) = rows st
        \<and> events (snd (changeItem cfg op input existing st))
             = events st @ newEvents st (snd (changeItem cfg op input existing st))
        \<and> list_all (\<lambda>e. \<not> pastValidation e)
             (newEvents st (snd (changeItem cfg op input existing st)))"
    by (rule impI, rule change_aborts[of cfg op input existing evs rd rs l st]; blast)
  show "withId i (rows st) = old # others
      \<and> deleteAccess cfg old
      \<and> rs' = invokeAll (\<lambda>f. validateDelete (fieldHooks f)) (listFields cfg)
                (argsOf Delete (\<lambda>k. None) (Some old) (\<lambda>k. None))
      \<and> l' = map_option (\<lambda>h. h (argsOf Delete (\<lambda>k. None) (Some old) (\<lambda>k. None)))
                (validateDelete (listHooks cfg))
      \<and> (recorded rs' l' \<noteq> [] \<or> \<not> noneThrew rs' l')
    \<longrightarrow> (\<exists>f. fst (deleteItem cfg i st) = Inl f)
        \<and> (noneThrew rs' l' \<longrightarrow>
             fst (deleteItem cfg i st) = Inl (ValidationFailureError (recorded rs' l')))
        \<and> rows (snd (deleteItem cfg i st)) = rows st
        \<and> events (snd (deleteItem cfg i st)) = events st @ newEvents st (snd (deleteItem cfg i st))
        \<and> list_all (\<lambda>e. \<not> pastValidation e) (newEvents st (snd (deleteItem cfg i st)))"
    by (rule impI, rule delete_aborts[of i st old others cfg rs' l']; blast)
qed

theorem C7_validation_failure_aborts_witness:
  "fst (changeItem testList Create [''name'' \<mapsto> VStr ''test entry''] None emptyList)
     = Inl (ValidationFailureError [''Required field testField is null or undefined''])
   \<and> rows (snd (changeItem testList Create [''name'' \<mapsto> VStr ''test entry''] None emptyList))
       = rows emptyList
   \<and> list_all (\<lambda>e. \<not> pastValidation e)
        (newEvents emptyList
           (snd (changeItem testList Create [''name'' \<mapsto> VStr ''test entry''] None emptyList)))
   \<and> fst (deleteItem testList 1 oneRow)
       = Inl (ValidationFailureError [''Items with a testField cannot be deleted''])
   \<and> rows (snd (deleteItem testList 1 oneRow)) = rows oneRow
   \<and> list_all (\<lambda>e. \<not> pastValidation e) (newEvents oneRow (snd (deleteItem testList 1 oneRow)))"
proof -
  let ?input = "[''name'' \<mapsto> VStr ''test entry'']"
  obtain evs1 rd where r: "resolveStages testList Create ?input None = (evs1, Inr rd)"
    and rdv: "rd ''testField'' = None"
    using demo_resolve by blast
  let ?rs = "invokeAll (\<lambda>f. validateInput (fieldHooks f)) (listFields testList)
               (argsOf Create ?input None rd)"
  let ?l = "map_option (\<lambda>h. h (argsOf Create ?input None rd)) (validateInput (listHooks testList))"
  have rec: "recorded ?rs ?l = [''Required field testField is null or undefined'']"
    using rdv by (simp add: pipe_eval)
  have nt: "noneThrew ?rs ?l"
    by (simp add: pipe_eval)
  have bad: "recorded ?rs ?l \<noteq> [] \<or> \<not> noneThrew ?rs ?l"
    using rec by simp
  note t1 = C7_validation_failure_aborts
    [where cfg = testList and op = Create and input = ?input and existing = None and evs = evs1
       and rd = rd and rs = ?rs and l = ?l and st = emptyList, THEN conjunct1, rule_format]
  have c1: "fst (changeItem testList Create ?input None emptyList)
              = Inl (ValidationFailureError (recorded ?rs ?l))"
    and c2: "rows (snd (changeItem testList Create ?input None emptyList)) = rows emptyList"
    and c3: "list_all (\<lambda>e. \<not> pastValidation e)
               (newEvents emptyList (snd (changeItem testList Create ?input None emptyList)))"
    using t1 r bad nt by blast+
  let ?old = "\<lparr>itemId = 1, fieldVals = [''name'' \<mapsto> VStr ''test entry'', ''testField'' \<mapsto> VStr ''x'']\<rparr>"
  let ?dargs = "argsOf Delete (\<lambda>k. None) (Some ?old) (\<lambda>k. None)"
  let ?rs' = "invokeAll (\<lambda>f. validateDelete (fieldHooks f)) (listFields testList) ?dargs"
  let ?l' = "map_option (\<lambda>h. h ?dargs) (validateDelete (listHooks testList))"
  have w: "withId 1 (rows oneRow) = ?old # []"
    by (simp add: pipe_eval)
  have a: "deleteAccess testList ?old"
    by (simp add: pipe_eval)
  have rec': "recorded ?rs' ?l' = [''Items with a testField cannot be deleted'']"
    by (simp add: pipe_eval)
  have nt': "noneThrew ?rs' ?l'"
    by (simp add: pipe_eval)
  have bad': "recorded ?rs' ?l' \<noteq> [] \<or> \<not> noneThrew ?rs' ?l'"
    using rec' by simp
  note t2 = C7_validation_failure_aborts
    [where cfg = testList and st = oneRow and i = 1 and old = ?old and others = "[]"
       and rs' = ?rs' and l' = ?l', THEN conjunct2, rule_format]
  have d1: "fst (deleteItem testList 1 oneRow) = Inl (ValidationFailureError (recorded ?rs' ?l'))"
    and d2: "rows (snd (deleteItem testList 1 oneRow)) = rows oneRow"
    and d3: "list_all (\<lambda>e. \<not> pastValidation e) (newEvents oneRow (snd (deleteItem testList 1 oneRow)))"
    using t2 w a bad' nt' by blast+
  show ?thesis
    using c1 c2 c3 d1 d2 d3 unfolding rec rec' by blast
qed


end
